theory Spec2Isabelle
  imports Main
begin

text \<open>
  A model of \<^verbatim>\<open>reporter/base.py\<close>: the class \<^verbatim>\<open>BaseReport\<close> with its constructor, \<^verbatim>\<open>get_file\<close>,
  \<^verbatim>\<open>set_dates\<close>, the three hooks, \<^verbatim>\<open>run_report\<close> and \<^verbatim>\<open>send_results\<close>.  Every function of the
  module is a function here, under its name; an exception is a result \<open>Inl\<close>; what the
  module does to files, to standard output and to its collaborators is a change of an
  explicit world.  The library calls the module makes (\<^verbatim>\<open>datetime\<close>, \<^verbatim>\<open>csv\<close>, \<^verbatim>\<open>tempfile\<close>,
  \<^verbatim>\<open>open\<close>, \<^verbatim>\<open>os.remove\<close>) are modelled as the library documents them.
\<close>

section \<open>Exceptions\<close>

text \<open>
  Every exception that can leave \<^verbatim>\<open>reporter/base.py\<close> is a value of one datatype.
  \<open>NotAvailable\<close> is the exception class the module declares itself; it carries its
  message.  \<open>External\<close> stands for whatever a collaborator (a subclass hook, the template
  engine, the mail transport, the site registry) raises of its own.
\<close>

datatype error =
    NotAvailable string
  | NotImplementedError
  | TypeError
  | AttributeError
  | IndexError
  | ValueError
  | OverflowError
  | IOError
  | OSError
  | TemplateDoesNotExist
  | External string

section \<open>Calendar dates (\<^verbatim>\<open>datetime.date\<close>)\<close>

text \<open>
  A \<^verbatim>\<open>datetime.date\<close> is a year, a month and a day of the proleptic Gregorian calendar.
  Arithmetic with a \<^verbatim>\<open>timedelta\<close> goes through the ordinal of the date (day 1 is
  0001-01-01), as in the reference implementation of the library:
  \<^verbatim>\<open>o = self.toordinal() + other.days; if 0 < o <= _MAXORDINAL: return fromordinal(o);
  raise OverflowError\<close>.  Python's \<^verbatim>\<open>//\<close> and \<^verbatim>\<open>%\<close> are floor division and its remainder,
  which is \<open>div\<close> and \<open>mod\<close> on \<open>int\<close>.
\<close>

datatype date = Date (year: int) (month: int) (day: int)

definition MINYEAR :: int where "MINYEAR = 1"
definition MAXYEAR :: int where "MAXYEAR = 9999"
definition MAXORDINAL :: int where "MAXORDINAL = 3652059"

definition DAYS_IN_MONTH :: "int list" where
  "DAYS_IN_MONTH = [-1, 31, 28, 31, 30, 31, 30, 31, 31, 30, 31, 30, 31]"

definition DAYS_BEFORE_MONTH :: "int list" where
  "DAYS_BEFORE_MONTH = [-1, 0, 31, 59, 90, 120, 151, 181, 212, 243, 273, 304, 334]"

definition is_leap :: "int \<Rightarrow> bool" where
  "is_leap y \<longleftrightarrow> y mod 4 = 0 \<and> (y mod 100 \<noteq> 0 \<or> y mod 400 = 0)"

definition days_before_year :: "int \<Rightarrow> int" where
  "days_before_year y = (y - 1) * 365 + (y - 1) div 4 - (y - 1) div 100 + (y - 1) div 400"

definition days_in_month :: "int \<Rightarrow> int \<Rightarrow> int" where
  "days_in_month y m = (if m = 2 \<and> is_leap y then 29 else DAYS_IN_MONTH ! nat m)"

definition days_before_month :: "int \<Rightarrow> int \<Rightarrow> int" where
  "days_before_month y m = DAYS_BEFORE_MONTH ! nat m + (if m > 2 \<and> is_leap y then 1 else 0)"

definition ymd2ord :: "int \<Rightarrow> int \<Rightarrow> int \<Rightarrow> int" where
  "ymd2ord y m d = days_before_year y + days_before_month y m + d"

definition DI400Y :: int where "DI400Y = 146097"
definition DI100Y :: int where "DI100Y = 36524"
definition DI4Y :: int where "DI4Y = 1461"

definition ord2ymd :: "int \<Rightarrow> date" where
  "ord2ymd n =
     (let n = n - 1;
          n400 = n div DI400Y; n = n mod DI400Y;
          y = n400 * 400 + 1;
          n100 = n div DI100Y; n = n mod DI100Y;
          n4 = n div DI4Y; n = n mod DI4Y;
          n1 = n div 365; n = n mod 365;
          y = y + n100 * 100 + n4 * 4 + n1
      in if n1 = 4 \<or> n100 = 4 then Date (y - 1) 12 31
         else
           let leapyear = (n1 = 3 \<and> (n4 \<noteq> 24 \<or> n100 = 3));
               m = (n + 50) div 32;
               preceding = DAYS_BEFORE_MONTH ! nat m + (if m > 2 \<and> leapyear then 1 else 0)
           in if preceding > n
              then let m = m - 1;
                       preceding = preceding - (DAYS_IN_MONTH ! nat m + (if m = 2 \<and> leapyear then 1 else 0))
                   in Date y m (n - preceding + 1)
              else Date y m (n - preceding + 1))"

text \<open>The check the \<^verbatim>\<open>date\<close> constructor makes: only such values exist at run time.\<close>

definition valid_date :: "date \<Rightarrow> bool" where
  "valid_date d \<longleftrightarrow>
     MINYEAR \<le> year d \<and> year d \<le> MAXYEAR \<and> 1 \<le> month d \<and> month d \<le> 12 \<and>
     1 \<le> day d \<and> day d \<le> days_in_month (year d) (month d)"

definition toordinal :: "date \<Rightarrow> int" where
  "toordinal d = ymd2ord (year d) (month d) (day d)"

definition fromordinal :: "int \<Rightarrow> date" where
  "fromordinal n = ord2ymd n"

text \<open>\<^verbatim>\<open>date + timedelta(days=k)\<close>, and \<^verbatim>\<open>date - timedelta(days=k)\<close>, which the library
  defines as \<^verbatim>\<open>self + timedelta(-k)\<close>.\<close>

definition date_add :: "date \<Rightarrow> int \<Rightarrow> error + date" where
  "date_add d k =
     (let o' = toordinal d + k
      in if 0 < o' \<and> o' \<le> MAXORDINAL then Inr (fromordinal o') else Inl OverflowError)"

definition date_sub :: "date \<Rightarrow> int \<Rightarrow> error + date" where
  "date_sub d k = date_add d (- k)"

text \<open>The month and day that \<open>ord2ymd\<close> computes from the day of the year \<open>n\<close> (counted
  from 0) and the leap-year flag: the last third of \<open>ord2ymd\<close>, named for the proofs.\<close>

definition month_day :: "bool \<Rightarrow> int \<Rightarrow> int \<times> int" where
  "month_day leapyear n =
     (let m = (n + 50) div 32;
          preceding = DAYS_BEFORE_MONTH ! nat m + (if m > 2 \<and> leapyear then 1 else 0)
      in if preceding > n
         then let m = m - 1;
                  preceding = preceding - (DAYS_IN_MONTH ! nat m + (if m = 2 \<and> leapyear then 1 else 0))
              in (m, n - preceding + 1)
         else (m, n - preceding + 1))"

section \<open>Strings\<close>

definition LF :: char where "LF = CHR 0x0A"
definition CR :: char where "CR = CHR 0x0D"

text \<open>\<^verbatim>\<open>sep.join(xs)\<close> and \<^verbatim>\<open>s.replace(old, new)\<close> for a one-character \<^verbatim>\<open>old\<close>.\<close>

fun py_join :: "string \<Rightarrow> string list \<Rightarrow> string" where
  "py_join sep [] = []"
| "py_join sep [x] = x"
| "py_join sep (x # y # ys) = x @ sep @ py_join sep (y # ys)"

definition py_replace :: "string \<Rightarrow> char \<Rightarrow> string \<Rightarrow> string" where
  "py_replace s old new = concat (map (\<lambda>c. if c = old then new else [c]) s)"

text \<open>Decimal rendering, as \<^verbatim>\<open>str\<close> gives it for an integer.\<close>

definition digit_char :: "nat \<Rightarrow> char" where
  "digit_char n = ''0123456789'' ! n"

function str_nat :: "nat \<Rightarrow> string" where
  "str_nat n = (if n < 10 then [digit_char n] else str_nat (n div 10) @ [digit_char (n mod 10)])"
  by pat_completeness auto
termination
  by (relation "measure (\<lambda>n. n)") auto

definition str_int :: "int \<Rightarrow> string" where
  "str_int i = (if i < 0 then CHR ''-'' # str_nat (nat (- i)) else str_nat (nat i))"

definition zfill :: "nat \<Rightarrow> string \<Rightarrow> string" where
  "zfill w s = replicate (w - length s) CHR ''0'' @ s"

text \<open>\<^verbatim>\<open>str(d)\<close> for a date: \<^verbatim>\<open>"%04d-%02d-%02d" % (year, month, day)\<close>.\<close>

definition isoformat :: "date \<Rightarrow> string" where
  "isoformat d =
     zfill 4 (str_int (year d)) @ ''-'' @ zfill 2 (str_int (month d)) @ ''-'' @ zfill 2 (str_int (day d))"

section \<open>Values\<close>

text \<open>
  What a caller may pass where the constructor expects a date.  \<open>PyDateTime\<close> is an
  instance of \<^verbatim>\<open>datetime.datetime\<close>, a subclass of \<^verbatim>\<open>datetime.date\<close>: its calendar day and
  the microseconds since midnight.
\<close>

datatype pyval = PyNone | PyDate (the_date: date) | PyDateTime date nat | PyStr string | PyInt int

text \<open>\<^verbatim>\<open>type(v) is datetime.date\<close>: the exact type, no subclass.\<close>

fun type_is_date :: "pyval \<Rightarrow> bool" where
  "type_is_date (PyDate d) = True"
| "type_is_date v = False"

text \<open>A table is the list of rows \<^verbatim>\<open>get_data\<close> returns; row 0 is the header.  A cell is a
  scalar: a string, an integer, a date or \<^verbatim>\<open>None\<close>.\<close>

datatype cell = CNone | CStr string | CInt int | CDate date

type_synonym table = "cell list list"

fun py_str :: "cell \<Rightarrow> string" where
  "py_str CNone = ''None''"
| "py_str (CStr s) = s"
| "py_str (CInt i) = str_int i"
| "py_str (CDate d) = isoformat d"

text \<open>\<^verbatim>\<open>xs[i]\<close> for \<open>i \<ge> 0\<close>.\<close>

definition py_index :: "'a list \<Rightarrow> nat \<Rightarrow> error + 'a" where
  "py_index xs i = (if i < length xs then Inr (xs ! i) else Inl IndexError)"

text \<open>Evaluating a comprehension: the elements in order, stopping at the first that raises.\<close>

fun collect :: "(error + 'a) list \<Rightarrow> error + 'a list" where
  "collect [] = Inr []"
| "collect (Inl e # xs) = Inl e"
| "collect (Inr x # xs) = (case collect xs of Inl e \<Rightarrow> Inl e | Inr ys \<Rightarrow> Inr (x # ys))"

text \<open>\<^verbatim>\<open>max\<close> of a sequence: \<^verbatim>\<open>ValueError\<close> when it is empty.\<close>

fun py_max :: "nat list \<Rightarrow> error + nat" where
  "py_max [] = Inl ValueError"
| "py_max (x # xs) = Inr (fold max xs x)"

section \<open>The world outside the report\<close>

text \<open>
  A file object is \<^verbatim>\<open>sys.stdout\<close> or an object that \<^verbatim>\<open>open\<close> or \<^verbatim>\<open>NamedTemporaryFile\<close> has
  made: the temporary file and the file the caller named are both of the second kind.
  Such an object has an identity, its number in the order in which the file objects were
  made, and the name it was opened under (its attribute \<^verbatim>\<open>name\<close>).  Two objects can have
  the same name; each is open or closed on its own.
\<close>

datatype pyfile = Stdout | File nat string

fun file_name :: "pyfile \<Rightarrow> string" where
  "file_name Stdout = ''<stdout>''"
| "file_name (File h p) = p"

record email =
  subject :: string
  body :: string
  from_email :: string
  to :: "string list"
  attachments :: "(string \<times> string \<times> string) list"
  alternatives :: "(string \<times> string) list"

text \<open>The dictionary handed to the template, with its keys \<^verbatim>\<open>report_name\<close>,
  \<^verbatim>\<open>column_headers\<close>, \<^verbatim>\<open>data\<close> and \<^verbatim>\<open>column_count\<close>.\<close>

record template_context =
  ctx_report_name :: string
  ctx_column_headers :: "cell list"
  ctx_data :: table
  ctx_column_count :: nat

datatype hook = GetData | GetDefaultRecipients | GetEmailSubject

text \<open>
  What a run does to its collaborators, in order: a call of a hook is made (whether or
  not the call gets as far as the body), a message object is built, \<^verbatim>\<open>send()\<close> is called
  on it, \<^verbatim>\<open>send()\<close> returns (with the number of messages delivered), a file is removed.
\<close>

datatype event =
    HookCalled hook
  | Composed email
  | SendCalled email
  | SendReturned nat
  | Removed string

text \<open>
  The mutable world: the files on disk (name to contents), for every file object made so
  far whether it has been closed (object number \<open>h\<close> at position \<open>h\<close>), what has been
  written to standard output and whether it has been closed, the state of the data source
  the hooks of a subclass read (and may change), and the events so far.
\<close>

record 'db world =
  fs :: "string \<rightharpoonup> string"
  files_closed :: "bool list"
  stdout :: string
  stdout_closed :: bool
  db :: 'db
  trace :: "event list"

text \<open>
  The fixed surroundings of a run: the clock (\<^verbatim>\<open>datetime.date.today()\<close>), the home
  directory (\<^verbatim>\<open>os.path.expanduser('~')\<close>), the names \<^verbatim>\<open>tempfile\<close> tries in turn, which
  paths can be opened or created for writing, the site registry
  (\<^verbatim>\<open>Site.objects.get_current()\<close>), the
  module constant \<^verbatim>\<open>REPORTER_FROM_EMAIL\<close>, the templates, and the mail transport.
\<close>

record env =
  today :: date
  home :: string
  tmp_names :: "string list"
  may_open :: "string \<Rightarrow> bool"
  current_site :: "error + string"
  reporter_from_email :: string
  templates :: "string \<rightharpoonup> (template_context \<Rightarrow> error + string)"
  transport :: "email \<Rightarrow> error + nat"

subsection \<open>Computations that change the world and may raise\<close>

type_synonym ('db, 'a) io = "'db world \<Rightarrow> (error + 'a) \<times> 'db world"

definition io_return :: "'a \<Rightarrow> ('db, 'a) io" where
  "io_return x w = (Inr x, w)"

definition io_raise :: "error \<Rightarrow> ('db, 'a) io" where
  "io_raise e w = (Inl e, w)"

definition io_lift :: "error + 'a \<Rightarrow> ('db, 'a) io" where
  "io_lift r w = (r, w)"

definition io_bind :: "('db, 'a) io \<Rightarrow> ('a \<Rightarrow> ('db, 'b) io) \<Rightarrow> ('db, 'b) io" where
  "io_bind m f w = (case m w of (Inl e, w') \<Rightarrow> (Inl e, w') | (Inr x, w') \<Rightarrow> f x w')"

definition record_event :: "event \<Rightarrow> ('db, unit) io" where
  "record_event ev w = (Inr (), w\<lparr>trace := trace w @ [ev]\<rparr>)"

subsection \<open>Files\<close>

text \<open>A new file object under the name \<open>p\<close>, open, on a new or emptied file.\<close>

definition new_file :: "string \<Rightarrow> ('db, pyfile) io" where
  "new_file p w =
     (Inr (File (length (files_closed w)) p),
      w\<lparr>fs := (fs w)(p \<mapsto> []), files_closed := files_closed w @ [False]\<rparr>)"

text \<open>\<^verbatim>\<open>open(p, 'w')\<close>: the file is created or truncated, or \<^verbatim>\<open>IOError\<close>.\<close>

definition py_open_w :: "env \<Rightarrow> string \<Rightarrow> ('db, pyfile) io" where
  "py_open_w e p w = (if may_open e p then new_file p w else (Inl IOError, w))"

text \<open>
  \<^verbatim>\<open>NamedTemporaryFile(delete=False)\<close>.  The library goes through its candidate names and
  creates the file exclusively (\<^verbatim>\<open>os.open\<close> with \<^verbatim>\<open>O_CREAT | O_EXCL\<close>): a name that a file
  has already is passed over, any other failure of \<^verbatim>\<open>os.open\<close> leaves as the \<^verbatim>\<open>OSError\<close> it
  is, and when the names are used up the library raises \<^verbatim>\<open>IOError\<close>.
\<close>

fun mkstemp_inner :: "env \<Rightarrow> string list \<Rightarrow> ('db, pyfile) io" where
  "mkstemp_inner e [] w = (Inl IOError, w)"
| "mkstemp_inner e (p # ps) w =
     (if fs w p \<noteq> None then mkstemp_inner e ps w
      else if may_open e p then new_file p w
      else (Inl OSError, w))"

definition NamedTemporaryFile :: "env \<Rightarrow> ('db, pyfile) io" where
  "NamedTemporaryFile e = mkstemp_inner e (tmp_names e)"

text \<open>The file object number \<open>h\<close> exists and has not been closed.\<close>

definition is_open :: "'db world \<Rightarrow> nat \<Rightarrow> bool" where
  "is_open w h \<longleftrightarrow> h < length (files_closed w) \<and> \<not> files_closed w ! h"

text \<open>\<^verbatim>\<open>f.write(s)\<close>.  Writing to a closed file object, or to closed standard output, is a
  \<^verbatim>\<open>ValueError\<close>; what is written to a file whose name has been removed meanwhile reaches
  no name.\<close>

fun fwrite :: "pyfile \<Rightarrow> string \<Rightarrow> ('db, unit) io" where
  "fwrite Stdout s w =
     (if stdout_closed w then (Inl ValueError, w) else (Inr (), w\<lparr>stdout := stdout w @ s\<rparr>))"
| "fwrite (File h p) s w =
     (if \<not> is_open w h then (Inl ValueError, w)
      else case fs w p of
             None \<Rightarrow> (Inr (), w)
           | Some c \<Rightarrow> (Inr (), w\<lparr>fs := (fs w)(p \<mapsto> c @ s)\<rparr>))"

text \<open>\<^verbatim>\<open>f.close()\<close>: the object is closed from then on (closing it again does nothing).
  The contents of a file in the world are what has been written to it, which is what the
  disk holds once the file object is closed; \<^verbatim>\<open>run_report\<close> closes its file before
  anything reads it.\<close>

fun fclose :: "pyfile \<Rightarrow> ('db, unit) io" where
  "fclose Stdout w = (Inr (), w\<lparr>stdout_closed := True\<rparr>)"
| "fclose (File h p) w = (Inr (), w\<lparr>files_closed := (files_closed w)[h := True]\<rparr>)"

text \<open>\<^verbatim>\<open>open(p).read()\<close>: the contents of the file of that name, or \<^verbatim>\<open>IOError\<close> when there
  is none (the file object made for the reading is used for nothing else, and is not
  counted).  \<^verbatim>\<open>os.remove(p)\<close>: the name is gone, or \<^verbatim>\<open>OSError\<close> when there is no such file.\<close>

definition read_file :: "string \<Rightarrow> ('db, string) io" where
  "read_file p w = (case fs w p of None \<Rightarrow> (Inl IOError, w) | Some c \<Rightarrow> (Inr c, w))"

definition os_remove :: "string \<Rightarrow> ('db, unit) io" where
  "os_remove p w =
     (case fs w p of
        None \<Rightarrow> (Inl OSError, w)
      | Some c \<Rightarrow> (Inr (), w\<lparr>fs := (fs w)(p := None), trace := trace w @ [Removed p]\<rparr>))"

subsection \<open>The csv module, dialect \<^verbatim>\<open>excel\<close>\<close>

text \<open>
  \<^verbatim>\<open>csv.writer(f)\<close> writes with the default dialect: delimiter \<^verbatim>\<open>,\<close>, quote character
  \<^verbatim>\<open>"\<close>, doubled inside a quoted field, \<^verbatim>\<open>QUOTE_MINIMAL\<close>, line terminator \<^verbatim>\<open>\r\n\<close>.
  \<^verbatim>\<open>None\<close> is written as the empty field, any other value as its \<^verbatim>\<open>str\<close>, which the writer
  reads as a C string, up to its first NUL byte.  A field is quoted when it contains the
  delimiter, the quote character or a character of the line terminator, and when it is
  empty and the only field of its row.
\<close>

definition NUL :: char where "NUL = CHR 0x00"

fun csv_str :: "cell \<Rightarrow> string" where
  "csv_str CNone = []"
| "csv_str c = takeWhile (\<lambda>ch. ch \<noteq> NUL) (py_str c)"

definition csv_special :: "char \<Rightarrow> bool" where
  "csv_special c \<longleftrightarrow> c = CHR '','' \<or> c = CHR 0x22 \<or> c = CR \<or> c = LF"

definition csv_field :: "bool \<Rightarrow> string \<Rightarrow> string" where
  "csv_field quote_empty s =
     (let quoted = (list_ex csv_special s \<or> (s = [] \<and> quote_empty));
          copied = concat (map (\<lambda>c. if c = CHR 0x22 then [CHR 0x22, CHR 0x22] else [c]) s)
      in if quoted then [CHR 0x22] @ copied @ [CHR 0x22] else copied)"

definition csv_row :: "cell list \<Rightarrow> string" where
  "csv_row row =
     py_join '','' (map (\<lambda>c. csv_field (length row = 1) (csv_str c)) row) @ [CR, LF]"

text \<open>\<^verbatim>\<open>writer.writerows(rows)\<close>: one \<^verbatim>\<open>write\<close> per row.\<close>

fun writerows :: "pyfile \<Rightarrow> table \<Rightarrow> ('db, unit) io" where
  "writerows f [] = io_return ()"
| "writerows f (row # rows) = io_bind (fwrite f (csv_row row)) (\<lambda>_. writerows f rows)"

section \<open>\<^verbatim>\<open>BaseReport\<close> and its subclasses\<close>

text \<open>The attributes of an instance, under the names \<^verbatim>\<open>__init__\<close> gives them.\<close>

record report =
  frequency :: string
  date :: date
  tomorrow :: date
  one_week :: date
  one_month :: date
  view :: bool
  send :: bool
  "file" :: pyfile
  recipients :: "string list option"
  site :: string
  args :: pyval

text \<open>
  A method is the number of positional parameters it declares after \<^verbatim>\<open>self\<close>, and its
  body.  Calling it with another number of arguments is a \<^verbatim>\<open>TypeError\<close>, raised before
  the body runs.  The body of a hook reads the instance and works on the data source.
\<close>

datatype 'b pymethod = Method (params: nat) (body: 'b)

type_synonym ('db, 'a) hook_body = "report \<Rightarrow> 'db \<Rightarrow> (error + 'a) \<times> 'db"

text \<open>
  What a subclass declares.  \<^verbatim>\<open>BaseReport\<close> has no attribute \<^verbatim>\<open>name\<close> and no attribute
  \<^verbatim>\<open>frequencies\<close>: a subclass has them if it declares them (\<open>None\<close>: it does not).  For a
  hook, \<open>None\<close> is a hook left as \<^verbatim>\<open>BaseReport\<close> has it.
\<close>

record 'db report_class =
  name :: "string option"
  frequencies :: "string list option"
  get_default_recipients_def :: "('db, string list) hook_body pymethod option"
  get_data_def :: "('db, table) hook_body pymethod option"
  get_email_subject_def :: "('db, string) hook_body pymethod option"

text \<open>The three hooks as \<^verbatim>\<open>BaseReport\<close> defines them.  \<^verbatim>\<open>get_default_recipients\<close> is declared
  with a parameter \<^verbatim>\<open>recipients\<close> after \<^verbatim>\<open>self\<close>; the other two with none.\<close>

definition get_default_recipients :: "('db, string list) hook_body pymethod" where
  "get_default_recipients = Method 1 (\<lambda>self d. (Inl NotImplementedError, d))"

definition get_data :: "('db, table) hook_body pymethod" where
  "get_data = Method 0 (\<lambda>self d. (Inl NotImplementedError, d))"

definition get_email_subject :: "('db, string) hook_body pymethod" where
  "get_email_subject = Method 0 (\<lambda>self d. (Inl NotImplementedError, d))"

text \<open>Attribute lookup on the instance.  For a hook: the definition of the subclass if
  it has one, the inherited one otherwise.  For \<^verbatim>\<open>self.name\<close> and \<^verbatim>\<open>self.frequencies\<close>, which
  nothing is inherited for: the declaration of the subclass, or \<^verbatim>\<open>AttributeError\<close>.\<close>

definition class_attr :: "'a option \<Rightarrow> error + 'a" where
  "class_attr own = (case own of None \<Rightarrow> Inl AttributeError | Some v \<Rightarrow> Inr v)"

definition resolve :: "'m option \<Rightarrow> 'm \<Rightarrow> 'm" where
  "resolve own inherited = (case own of Some m \<Rightarrow> m | None \<Rightarrow> inherited)"

text \<open>The call \<^verbatim>\<open>self.h(...)\<close> with \<open>nargs\<close> arguments.\<close>

definition call_hook ::
  "hook \<Rightarrow> ('db, 'a) hook_body pymethod \<Rightarrow> nat \<Rightarrow> report \<Rightarrow> ('db, 'a) io" where
  "call_hook h m nargs self w =
     (let w = w\<lparr>trace := trace w @ [HookCalled h]\<rparr>
      in if nargs \<noteq> params m then (Inl TypeError, w)
         else case body m self (db w) of (r, d) \<Rightarrow> (r, w\<lparr>db := d\<rparr>))"

text \<open>Python's truth value of an optional string or list: \<^verbatim>\<open>None\<close> and the empty sequence
  are false.\<close>

fun truthy :: "'a list option \<Rightarrow> bool" where
  "truthy None = False"
| "truthy (Some xs) = (xs \<noteq> [])"

subsection \<open>\<^verbatim>\<open>set_dates\<close>\<close>

definition set_dates :: "env \<Rightarrow> pyval \<Rightarrow> report \<Rightarrow> error + report" where
  "set_dates e dt self =
     (let self = (if type_is_date dt then self\<lparr>date := the_date dt\<rparr>
                  else self\<lparr>date := today e\<rparr>)
      in case date_add (date self) 1 of Inl err \<Rightarrow> Inl err | Inr t \<Rightarrow>
         let self = self\<lparr>tomorrow := t\<rparr>
         in case date_sub (date self) 7 of Inl err \<Rightarrow> Inl err | Inr w \<Rightarrow>
            let self = self\<lparr>one_week := w\<rparr>
            in case date_sub (date self) 32 of Inl err \<Rightarrow> Inl err | Inr m \<Rightarrow>
               Inr (self\<lparr>one_month := m\<rparr>))"

subsection \<open>\<^verbatim>\<open>get_file\<close>\<close>

definition get_file :: "env \<Rightarrow> report \<Rightarrow> string option \<Rightarrow> ('db, pyfile) io" where
  "get_file e self filename =
     (if view self then io_return Stdout
      else if \<not> truthy filename then NamedTemporaryFile e
      else
        let fname = the filename;
            fname = (if CHR ''~'' \<in> set fname then py_replace fname CHR ''~'' (home e) else fname)
        in py_open_w e fname)"

subsection \<open>\<^verbatim>\<open>__init__\<close>\<close>

text \<open>A new instance before \<^verbatim>\<open>__init__\<close> has assigned anything: every attribute is assigned
  before \<^verbatim>\<open>__init__\<close> returns, and none is read before it is assigned.\<close>

definition new_instance :: report where
  "new_instance =
     \<lparr>frequency = [], date = Date 0 0 0, tomorrow = Date 0 0 0, one_week = Date 0 0 0,
      one_month = Date 0 0 0, view = False, send = False, file = Stdout, recipients = None,
      site = [], args = PyNone\<rparr>"

definition not_available_message :: "string \<Rightarrow> string \<Rightarrow> string" where
  "not_available_message freq nm =
     ''The '' @ freq @ '' frequency is not available for the '' @ nm @ '' report.''"

definition init ::
  "'db report_class \<Rightarrow> env \<Rightarrow> string \<Rightarrow> pyval \<Rightarrow> bool \<Rightarrow> string option \<Rightarrow>
     string list option \<Rightarrow> pyval \<Rightarrow> ('db, report) io" where
  "init cls e freq dt vw filename rcpts report_args =
     io_bind (io_lift (class_attr (frequencies cls))) (\<lambda>freqs.
     if freq \<notin> set freqs
     then io_bind (io_lift (class_attr (name cls))) (\<lambda>nm.
          io_raise (NotAvailable (not_available_message freq nm)))
     else
       let self = new_instance\<lparr>frequency := freq\<rparr>
       in io_bind (io_lift (set_dates e dt self)) (\<lambda>self.
          let self = self\<lparr>view := vw\<rparr>;
              self = self\<lparr>send := True\<rparr>;
              self = (if truthy filename \<or> vw then self\<lparr>send := False\<rparr> else self)
          in io_bind (get_file e self filename) (\<lambda>f.
             let self = self\<lparr>file := f\<rparr>;
                 self = self\<lparr>recipients := None\<rparr>;
                 self = (if truthy rcpts then self\<lparr>recipients := rcpts\<rparr> else self)
             in io_bind (io_lift (current_site e)) (\<lambda>s.
                let self = self\<lparr>site := s\<rparr>
                in io_return (self\<lparr>args := report_args\<rparr>)))))"

subsection \<open>The plain-text table of \<^verbatim>\<open>send_results\<close>\<close>

text \<open>
  \<^verbatim>\<open>column_max_lens = [max((len(str(data_line[i])) for data_line in data))
                     for i in xrange(len(data[0]))]\<close>
\<close>

definition column_max_lens :: "table \<Rightarrow> error + nat list" where
  "column_max_lens data =
     (case py_index data 0 of Inl e \<Rightarrow> Inl e | Inr header \<Rightarrow>
        collect (map (\<lambda>i.
          case collect (map (\<lambda>data_line.
                 case py_index data_line i of Inl e \<Rightarrow> Inl e
                 | Inr v \<Rightarrow> Inr (length (py_str v))) data)
          of Inl e \<Rightarrow> Inl e | Inr lens \<Rightarrow> py_max lens) [0..<length header]))"

text \<open>\<^verbatim>\<open>"+" + "+".join(["-"*current_len for current_len in column_max_lens]) + "+" + "\n\r"\<close>\<close>

definition border :: "nat list \<Rightarrow> string" where
  "border lens =
     ''+'' @ py_join ''+'' (map (\<lambda>current_len. replicate current_len CHR ''-'') lens) @ ''+''
       @ [LF, CR]"

text \<open>\<^verbatim>\<open>str(row[i]) + " "*(column_max_lens[i]-len(str(row[i])))\<close>; a string times a negative
  number is the empty string.\<close>

definition padded :: "nat list \<Rightarrow> cell list \<Rightarrow> nat \<Rightarrow> error + string" where
  "padded lens row i =
     (case py_index row i of Inl e \<Rightarrow> Inl e | Inr v \<Rightarrow>
      case py_index lens i of Inl e \<Rightarrow> Inl e | Inr n \<Rightarrow>
        Inr (py_str v @ replicate (n - length (py_str v)) CHR '' ''))"

text \<open>\<^verbatim>\<open>"|" + "|".join(... for i in xrange(len(row))) + "|" + "\n\r"\<close>\<close>

definition row_line :: "nat list \<Rightarrow> cell list \<Rightarrow> error + string" where
  "row_line lens row =
     (case collect (map (padded lens row) [0..<length row]) of Inl e \<Rightarrow> Inl e
      | Inr cells \<Rightarrow> Inr (''|'' @ py_join ''|'' cells @ ''|'' @ [LF, CR]))"

text \<open>The value of \<^verbatim>\<open>text_content\<close> when the message is built (lines 127 to 136).\<close>

definition text_content :: "table \<Rightarrow> error + string" where
  "text_content data =
     (case column_max_lens data of Inl e \<Rightarrow> Inl e | Inr lens \<Rightarrow>
      case py_index data 0 of Inl e \<Rightarrow> Inl e | Inr header \<Rightarrow>
      case row_line lens header of Inl e \<Rightarrow> Inl e | Inr header_line \<Rightarrow>
      case collect (map (row_line lens) (drop 1 data)) of Inl e \<Rightarrow> Inl e | Inr data_lines \<Rightarrow>
        Inr (border lens @ header_line @ border lens @ concat data_lines @ border lens))"

subsection \<open>\<^verbatim>\<open>send_results\<close>\<close>

definition get_template :: "env \<Rightarrow> string \<Rightarrow> error + (template_context \<Rightarrow> error + string)" where
  "get_template e nm = (case templates e nm of None \<Rightarrow> Inl TemplateDoesNotExist | Some t \<Rightarrow> Inr t)"

text \<open>\<^verbatim>\<open>msg.send()\<close>: what the transport raises leaves the call as it is.\<close>

definition msg_send :: "env \<Rightarrow> email \<Rightarrow> ('db, nat) io" where
  "msg_send e msg =
     io_bind (record_event (SendCalled msg)) (\<lambda>_.
     io_bind (io_lift (transport e msg)) (\<lambda>k.
     io_bind (record_event (SendReturned k)) (\<lambda>_.
     io_return k)))"

text \<open>\<^verbatim>\<open>'%s.%s.csv' % (self.name, self.date)\<close>\<close>

definition attachment_name :: "string \<Rightarrow> report \<Rightarrow> string" where
  "attachment_name nm self = nm @ ''.'' @ isoformat (date self) @ ''.csv''"

definition send_results :: "'db report_class \<Rightarrow> env \<Rightarrow> report \<Rightarrow> ('db, unit) io" where
  "send_results cls e self =
     io_bind (if \<not> truthy (recipients self)
              then io_bind (call_hook GetDefaultRecipients
                              (resolve (get_default_recipients_def cls) get_default_recipients) 0 self)
                     (\<lambda>rs. io_return (self\<lparr>recipients := Some rs\<rparr>))
              else io_return self) (\<lambda>self.
     io_bind (io_lift (get_template e ''reporter/report.html'')) (\<lambda>html.
     io_bind (call_hook GetData (resolve (get_data_def cls) get_data) 0 self) (\<lambda>data.
     io_bind (call_hook GetEmailSubject (resolve (get_email_subject_def cls) get_email_subject) 0 self)
       (\<lambda>subject.
     io_bind (call_hook GetEmailSubject (resolve (get_email_subject_def cls) get_email_subject) 0 self)
       (\<lambda>report_name.
     io_bind (io_lift (py_index data 0)) (\<lambda>column_headers.
     let d = \<lparr>ctx_report_name = report_name, ctx_column_headers = column_headers,
              ctx_data = drop 1 data, ctx_column_count = length column_headers\<rparr>
     in io_bind (io_lift (html d)) (\<lambda>html_content.
        io_bind (io_lift (text_content data)) (\<lambda>text_content.
        io_bind (io_lift (class_attr (name cls))) (\<lambda>nm.
        io_bind (read_file (file_name (file self))) (\<lambda>csv.
        let msg = \<lparr>subject = subject, body = text_content, from_email = reporter_from_email e,
                   to = (case recipients self of None \<Rightarrow> [] | Some rs \<Rightarrow> rs),
                   attachments = [(attachment_name nm self, csv, ''text/plain'')],
                   alternatives = []\<rparr>
        in io_bind (record_event (Composed msg)) (\<lambda>_.
           let msg = msg\<lparr>alternatives := alternatives msg @ [(html_content, ''text/html'')]\<rparr>
           in io_bind (msg_send e msg) (\<lambda>_.
              os_remove (file_name (file self))))))))))))))"

subsection \<open>\<^verbatim>\<open>run_report\<close>\<close>

definition run_report :: "'db report_class \<Rightarrow> env \<Rightarrow> report \<Rightarrow> ('db, unit) io" where
  "run_report cls e self =
     io_bind (call_hook GetData (resolve (get_data_def cls) get_data) 0 self) (\<lambda>rows.
     io_bind (writerows (file self) rows) (\<lambda>_.
     io_bind (fclose (file self)) (\<lambda>_.
     if send self then send_results cls e self else io_return ())))"

section \<open>A concrete subclass and its surroundings\<close>

text \<open>The table of the specification's examples, a subclass that overrides the three hooks,
  surroundings in which everything works, and a world with no files.\<close>

definition example_table :: table where
  "example_table = [[CStr ''a'', CStr ''b''], [CStr ''1'', CStr ''2''], [CStr ''300'', CStr ''4'']]"

definition example_class :: "unit report_class" where
  "example_class =
     \<lparr>name = Some ''sales'', frequencies = Some [''daily'', ''weekly''],
      get_default_recipients_def = Some (Method 0 (\<lambda>self d. (Inr [''ops@example.com''], d))),
      get_data_def = Some (Method 0 (\<lambda>self d. (Inr example_table, d))),
      get_email_subject_def = Some (Method 0 (\<lambda>self d. (Inr ''Sales'', d)))\<rparr>"

definition example_env :: env where
  "example_env =
     \<lparr>today = Date 2020 3 1, home = ''/home/u'', tmp_names = [''/tmp/tmpA'', ''/tmp/tmpB''],
      may_open = (\<lambda>p. True), current_site = Inr ''example.com'',
      reporter_from_email = ''reports@example.com'',
      templates = [''reporter/report.html'' \<mapsto> (\<lambda>d. Inr ''<html/>'')],
      transport = (\<lambda>m. Inr 1)\<rparr>"

definition empty_world :: "unit world" where
  "empty_world =
     \<lparr>fs = Map.empty, files_closed = [], stdout = [], stdout_closed = False, db = (), trace = []\<rparr>"


definition bare_class :: "unit report_class" where
  "bare_class = example_class\<lparr>get_default_recipients_def := None\<rparr>"

text \<open>A subclass that declares its frequencies and no name, and a table whose cells hold
  every character the CSV writer treats specially.\<close>

definition nameless_class :: "unit report_class" where
  "nameless_class = example_class\<lparr>name := None\<rparr>"


section \<open>Notions used to state and prove the properties\<close>

text \<open>The computation \<open>m\<close> only appends events that satisfy \<open>P\<close> to the trace.\<close>

definition emits :: "(event \<Rightarrow> bool) \<Rightarrow> ('db, 'a) io \<Rightarrow> bool" where
  "emits P m \<longleftrightarrow>
     (\<forall>w r w'. m w = (r, w') \<longrightarrow> (\<exists>evs. trace w' = trace w @ evs \<and> list_all P evs))"

text \<open>The computation \<open>m\<close> leaves every file as it is.\<close>

definition keeps_fs :: "('db, 'a) io \<Rightarrow> bool" where
  "keeps_fs m \<longleftrightarrow> (\<forall>w r w'. m w = (r, w') \<longrightarrow> fs w' = fs w)"











text \<open>
  The plain-text table in the words of its description: the width of column \<open>i\<close> is the
  greatest length of the \<^verbatim>\<open>str\<close> of a value in that column, the header included; a cell is
  the \<^verbatim>\<open>str\<close> of its value followed by spaces up to the width of its column; a line is the
  cells of a row between \<^verbatim>\<open>|\<close>, with the two characters the code ends every line with.
\<close>

definition column_width :: "table \<Rightarrow> nat \<Rightarrow> nat" where
  "column_width data i = Max ((\<lambda>row. length (py_str (row ! i))) ` set data)"

definition padded_cell :: "nat \<Rightarrow> cell \<Rightarrow> string" where
  "padded_cell n v = py_str v @ replicate (n - length (py_str v)) CHR '' ''"

definition table_line :: "nat list \<Rightarrow> cell list \<Rightarrow> string" where
  "table_line lens row = ''|'' @ py_join ''|'' (map2 padded_cell lens row) @ ''|'' @ [LF, CR]"

text \<open>The day after a date, read off the calendar: the next day of the month, or the first
  of the next month, or the first of January of the next year.\<close>

definition next_day :: "date \<Rightarrow> date" where
  "next_day d =
     (if day d < days_in_month (year d) (month d) then Date (year d) (month d) (day d + 1)
      else if month d < 12 then Date (year d) (month d + 1) 1
      else Date (year d + 1) 1 1)"

section \<open>The calendar: ordinals and dates\<close>

lemma month_day_props:
  assumes "0 \<le> n" "n \<le> 364" "month_day L n = (m, d)"
  shows "1 \<le> m \<and> m \<le> 12 \<and> 1 \<le> d \<and> d \<le> (if m = 2 \<and> L then 29 else DAYS_IN_MONTH ! nat m)
     \<and> DAYS_BEFORE_MONTH ! nat m + (if m > 2 \<and> L then 1 else 0) + d = n + 1"
proof -
  define k where "k = (n + 50) div 32"
  have "1 \<le> k" "k \<le> 12" using assms(1,2) unfolding k_def by linarith+
  then have "k = 1 \<or> k = 2 \<or> k = 3 \<or> k = 4 \<or> k = 5 \<or> k = 6 \<or> k = 7 \<or> k = 8 \<or> k = 9
    \<or> k = 10 \<or> k = 11 \<or> k = 12" by arith
  then consider "k = 1" | "k = 2" | "k = 3" | "k = 4" | "k = 5" | "k = 6" | "k = 7" | "k = 8" | "k = 9"
    | "k = 10" | "k = 11" | "k = 12" by blast
  then show ?thesis
  proof cases
    case 1
    then have "0 \<le> n" "n \<le> 13" unfolding k_def using assms(1,2) by linarith+
    with 1 assms(3) show ?thesis
      unfolding month_day_def Let_def k_def[symmetric] DAYS_BEFORE_MONTH_def DAYS_IN_MONTH_def
      by (auto split: if_splits)
  next
    case 2
    then have "14 \<le> n" "n \<le> 45" unfolding k_def using assms(1,2) by linarith+
    with 2 assms(3) show ?thesis
      unfolding month_day_def Let_def k_def[symmetric] DAYS_BEFORE_MONTH_def DAYS_IN_MONTH_def
      by (auto split: if_splits)
  next
    case 3
    then have "46 \<le> n" "n \<le> 77" unfolding k_def using assms(1,2) by linarith+
    with 3 assms(3) show ?thesis
      unfolding month_day_def Let_def k_def[symmetric] DAYS_BEFORE_MONTH_def DAYS_IN_MONTH_def
      by (auto split: if_splits)
  next
    case 4
    then have "78 \<le> n" "n \<le> 109" unfolding k_def using assms(1,2) by linarith+
    with 4 assms(3) show ?thesis
      unfolding month_day_def Let_def k_def[symmetric] DAYS_BEFORE_MONTH_def DAYS_IN_MONTH_def
      by (auto split: if_splits)
  next
    case 5
    then have "110 \<le> n" "n \<le> 141" unfolding k_def using assms(1,2) by linarith+
    with 5 assms(3) show ?thesis
      unfolding month_day_def Let_def k_def[symmetric] DAYS_BEFORE_MONTH_def DAYS_IN_MONTH_def
      by (auto split: if_splits)
  next
    case 6
    then have "142 \<le> n" "n \<le> 173" unfolding k_def using assms(1,2) by linarith+
    with 6 assms(3) show ?thesis
      unfolding month_day_def Let_def k_def[symmetric] DAYS_BEFORE_MONTH_def DAYS_IN_MONTH_def
      by (auto split: if_splits)
  next
    case 7
    then have "174 \<le> n" "n \<le> 205" unfolding k_def using assms(1,2) by linarith+
    with 7 assms(3) show ?thesis
      unfolding month_day_def Let_def k_def[symmetric] DAYS_BEFORE_MONTH_def DAYS_IN_MONTH_def
      by (auto split: if_splits)
  next
    case 8
    then have "206 \<le> n" "n \<le> 237" unfolding k_def using assms(1,2) by linarith+
    with 8 assms(3) show ?thesis
      unfolding month_day_def Let_def k_def[symmetric] DAYS_BEFORE_MONTH_def DAYS_IN_MONTH_def
      by (auto split: if_splits)
  next
    case 9
    then have "238 \<le> n" "n \<le> 269" unfolding k_def using assms(1,2) by linarith+
    with 9 assms(3) show ?thesis
      unfolding month_day_def Let_def k_def[symmetric] DAYS_BEFORE_MONTH_def DAYS_IN_MONTH_def
      by (auto split: if_splits)
  next
    case 10
    then have "270 \<le> n" "n \<le> 301" unfolding k_def using assms(1,2) by linarith+
    with 10 assms(3) show ?thesis
      unfolding month_day_def Let_def k_def[symmetric] DAYS_BEFORE_MONTH_def DAYS_IN_MONTH_def
      by (auto split: if_splits)
  next
    case 11
    then have "302 \<le> n" "n \<le> 333" unfolding k_def using assms(1,2) by linarith+
    with 11 assms(3) show ?thesis
      unfolding month_day_def Let_def k_def[symmetric] DAYS_BEFORE_MONTH_def DAYS_IN_MONTH_def
      by (auto split: if_splits)
  next
    case 12
    then have "334 \<le> n" "n \<le> 364" unfolding k_def using assms(1,2) by linarith+
    with 12 assms(3) show ?thesis
      unfolding month_day_def Let_def k_def[symmetric] DAYS_BEFORE_MONTH_def DAYS_IN_MONTH_def
      by (auto split: if_splits)
  qed
qed

lemma mod_zero_bounded:
  fixes x k :: int
  assumes "0 < x" "x \<le> k"
  shows "(x mod k = 0) = (x = k)"
proof (cases "x = k")
  case True
  then show ?thesis by simp
next
  case False
  with assms have "x < k" by simp
  with assms have "x mod k = x" by simp
  with assms False show ?thesis by simp
qed

lemma leap_decomp:
  fixes a b c e :: int
  assumes "0 \<le> b" "b \<le> 3" "0 \<le> c" "c \<le> 24" "0 \<le> e" "e \<le> 3"
  shows "is_leap (400 * a + 100 * b + 4 * c + e + 1) \<longleftrightarrow> (e = 3 \<and> (c \<noteq> 24 \<or> b = 3))"
proof -
  let ?y = "400 * a + 100 * b + 4 * c + e + 1"
  have "?y = (e + 1) + 4 * (100 * a + 25 * b + c)" by simp
  then have "?y mod 4 = (e + 1) mod 4" by (simp only: mod_mult_self2)
  moreover have "((e + 1) mod 4 = 0) = (e + 1 = 4)"
    using assms by (intro mod_zero_bounded) simp_all
  ultimately have m4: "(?y mod 4 = 0) = (e = 3)" by simp
  have "?y = (4 * c + e + 1) + 100 * (4 * a + b)" by simp
  then have "?y mod 100 = (4 * c + e + 1) mod 100" by (simp only: mod_mult_self2)
  moreover have "((4 * c + e + 1) mod 100 = 0) = (4 * c + e + 1 = 100)"
    using assms by (intro mod_zero_bounded) simp_all
  moreover have "(4 * c + e + 1 = 100) = (c = 24 \<and> e = 3)" using assms by linarith
  ultimately have m100: "(?y mod 100 = 0) = (c = 24 \<and> e = 3)" by simp
  have "?y = (100 * b + 4 * c + e + 1) + 400 * a" by simp
  then have "?y mod 400 = (100 * b + 4 * c + e + 1) mod 400" by (simp only: mod_mult_self2)
  moreover have "((100 * b + 4 * c + e + 1) mod 400 = 0) = (100 * b + 4 * c + e + 1 = 400)"
    using assms by (intro mod_zero_bounded) simp_all
  moreover have "(100 * b + 4 * c + e + 1 = 400) = (b = 3 \<and> c = 24 \<and> e = 3)" using assms by linarith
  ultimately have m400: "(?y mod 400 = 0) = (b = 3 \<and> c = 24 \<and> e = 3)" by simp
  show ?thesis unfolding is_leap_def m4 m100 m400 by blast
qed

lemma dby_decomp:
  assumes "0 \<le> b" "b \<le> 3" "0 \<le> c" "c \<le> 24" "0 \<le> e" "e \<le> 3"
  shows "days_before_year (400 * a + 100 * b + 4 * c + e + 1) = 146097 * a + 36524 * b + 1461 * c + 365 * e"
proof -
  let ?y = "400 * a + 100 * b + 4 * c + e"
  have d4: "?y div 4 = 100 * a + 25 * b + c" using assms by linarith
  have d100: "?y div 100 = 4 * a + b" using assms by linarith
  have d400: "?y div 400 = a" using assms by linarith
  show ?thesis unfolding days_before_year_def using d4 d100 d400 by simp
qed

lemma ord2ymd_unfold:
  assumes "a = (n - 1) div 146097" "r1 = (n - 1) mod 146097" "b = r1 div 36524" "r2 = r1 mod 36524"
    "c = r2 div 1461" "r3 = r2 mod 1461" "e = r3 div 365" "r = r3 mod 365"
  shows "ord2ymd n =
     (if e = 4 \<or> b = 4 then Date (a * 400 + 1 + b * 100 + c * 4 + e - 1) 12 31
      else case month_day (e = 3 \<and> (c \<noteq> 24 \<or> b = 3)) r of
             (m, d) \<Rightarrow> Date (a * 400 + 1 + b * 100 + c * 4 + e) m d)"
  unfolding ord2ymd_def month_day_def DI400Y_def DI100Y_def DI4Y_def assms
  by (simp only: Let_def prod.case if_distrib[of "\<lambda>p. case p of (m, d) \<Rightarrow> Date _ m d"] split: if_split)

lemma ordinal_digits:
  fixes n :: int
  assumes "a = (n - 1) div 146097" "r1 = (n - 1) mod 146097" "b = r1 div 36524" "r2 = r1 mod 36524"
    "c = r2 div 1461" "r3 = r2 mod 1461" "e = r3 div 365" "r = r3 mod 365"
  shows "n - 1 = 146097 * a + 36524 * b + 1461 * c + 365 * e + r"
    and "0 \<le> b" "b \<le> 4" "0 \<le> c" "c \<le> 24" "0 \<le> e" "e \<le> 4" "0 \<le> r" "r \<le> 364"
    and "b = 4 \<Longrightarrow> c = 0 \<and> e = 0 \<and> r = 0"
    and "e = 4 \<Longrightarrow> r = 0 \<and> c \<le> 23"
proof -
  have n: "n - 1 = 146097 * a + r1" and r1: "0 \<le> r1" "r1 < 146097"
    unfolding assms(1,2) by simp_all
  have e1: "r1 = 36524 * b + r2" and r2: "0 \<le> r2" "r2 < 36524"
    unfolding assms(3,4) by simp_all
  have e2: "r2 = 1461 * c + r3" and r3: "0 \<le> r3" "r3 < 1461"
    unfolding assms(5,6) by simp_all
  have e3: "r3 = 365 * e + r" and r4: "0 \<le> r" "r < 365"
    unfolding assms(7,8) by simp_all
  show "n - 1 = 146097 * a + 36524 * b + 1461 * c + 365 * e + r"
    using n e1 e2 e3 by simp
  show b: "0 \<le> b" "b \<le> 4" using r1 e1 r2 by linarith+
  show c: "0 \<le> c" "c \<le> 24" using r2 e2 r3 by linarith+
  show e: "0 \<le> e" "e \<le> 4" using r3 e3 r4 by linarith+
  show "0 \<le> r" "r \<le> 364" using r4 by linarith+
  show "c = 0 \<and> e = 0 \<and> r = 0" if "b = 4"
    using that r1 e1 r2 e2 r3 e3 r4 c e by linarith
  show "r = 0 \<and> c \<le> 23" if "e = 4"
    using that r2 e2 r3 e3 r4 c by linarith
qed

lemma year_upper:
  fixes a b c e r :: int
  assumes "0 \<le> b" "b \<le> 3" "0 \<le> c" "c \<le> 24" "0 \<le> e" "e \<le> 3" "0 \<le> r"
    and "146097 * a + 36524 * b + 1461 * c + 365 * e + r \<le> 3652058"
  shows "400 * a + 100 * b + 4 * c + e \<le> 9998"
proof -
  have a: "a \<le> 24" using assms by linarith
  show ?thesis
  proof (cases "a \<le> 23")
    case True
    then show ?thesis using assms by linarith
  next
    case False
    with a have a24: "a = 24" by simp
    show ?thesis
    proof (cases "b \<le> 2")
      case True
      then show ?thesis using a24 assms by linarith
    next
      case False
      with assms have b3: "b = 3" by simp
      show ?thesis
      proof (cases "c \<le> 23")
        case True
        then show ?thesis using a24 b3 assms by linarith
      next
        case False
        with assms have c24: "c = 24" by simp
        have "e \<le> 2" using a24 b3 c24 assms by linarith
        then show ?thesis using a24 b3 c24 by simp
      qed
    qed
  qed
qed

lemma fromordinal_cases:
  fixes n :: int
  obtains (last_day) y where "fromordinal n = Date y 12 31" "is_leap y" "days_before_year y + 366 = n"
      "1 \<le> n \<Longrightarrow> 1 \<le> y" "n \<le> 3652059 \<Longrightarrow> y \<le> 9999"
  | (regular) y m d r where "fromordinal n = Date y m d" "days_before_year y + r + 1 = n"
      "0 \<le> r" "r \<le> 364" "1 \<le> m" "m \<le> 12" "1 \<le> d"
      "d \<le> (if m = 2 \<and> is_leap y then 29 else DAYS_IN_MONTH ! nat m)"
      "DAYS_BEFORE_MONTH ! nat m + (if m > 2 \<and> is_leap y then 1 else 0) + d = r + 1"
      "1 \<le> n \<Longrightarrow> 1 \<le> y" "n \<le> 3652059 \<Longrightarrow> y \<le> 9999"
proof -
  define a where "a = (n - 1) div 146097"
  define r1 where "r1 = (n - 1) mod 146097"
  define b where "b = r1 div 36524"
  define r2 where "r2 = r1 mod 36524"
  define c where "c = r2 div 1461"
  define r3 where "r3 = r2 mod 1461"
  define e where "e = r3 div 365"
  define r where "r = r3 mod 365"
  note dg = ordinal_digits[OF a_def r1_def b_def r2_def c_def r3_def e_def r_def]
  note un = ord2ymd_unfold[OF a_def r1_def b_def r2_def c_def r3_def e_def r_def]
  have a0: "0 \<le> a" if "1 \<le> n" using that unfolding a_def by simp
  consider (b4) "b = 4" | (e4) "b \<le> 3" "e = 4" | (norm) "b \<le> 3" "e \<le> 3"
    using dg(3,7) by linarith
  then show thesis
  proof cases
    case b4
    with dg(10) have z: "c = 0" "e = 0" "r = 0" by simp_all
    let ?y = "400 * a + 400"
    have f: "fromordinal n = Date ?y 12 31"
      using un b4 z by (simp add: fromordinal_def)
    have eq: "?y = 400 * a + 100 * 3 + 4 * 24 + 3 + 1" by simp
    have dby: "days_before_year ?y = 146097 * a + 36524 * 3 + 1461 * 24 + 365 * 3"
      by (subst eq, rule dby_decomp) simp_all
    have lp: "is_leap ?y"
      by (subst eq, subst leap_decomp) simp_all
    have n: "days_before_year ?y + 366 = n" using dby dg(1) b4 z by simp
    have lo: "1 \<le> ?y" if "1 \<le> n" using a0[OF that] by simp
    have hi: "?y \<le> 9999" if "n \<le> 3652059" using that dg(1) b4 z by simp
    show thesis by (rule last_day[OF f lp n lo hi])
  next
    case e4
    with dg(11) have z: "r = 0" "c \<le> 23" by simp_all
    let ?y = "400 * a + 100 * b + 4 * c + 4"
    have f: "fromordinal n = Date ?y 12 31"
      using un e4 by (simp add: fromordinal_def)
    have eq: "?y = 400 * a + 100 * b + 4 * c + 3 + 1" by simp
    have dby: "days_before_year ?y = 146097 * a + 36524 * b + 1461 * c + 365 * 3"
      by (subst eq, rule dby_decomp) (use dg(2,4,5) e4 in simp_all)
    have lp: "is_leap ?y"
      by (subst eq, subst leap_decomp) (use dg(2,4,5) e4 z in simp_all)
    have n: "days_before_year ?y + 366 = n" using dby dg(1) e4 z by simp
    have lo: "1 \<le> ?y" if "1 \<le> n" using a0[OF that] dg(2,4) by simp
    have hi: "?y \<le> 9999" if "n \<le> 3652059"
    proof -
      have "146097 * a + 36524 * b + 1461 * c + 365 * 3 + 365 \<le> 3652058"
        using that dg(1) e4 z by simp
      from year_upper[OF dg(2) e4(1) dg(4,5) _ _ _ this] show ?thesis by simp
    qed
    show thesis by (rule last_day[OF f lp n lo hi])
  next
    case norm
    let ?y = "400 * a + 100 * b + 4 * c + e + 1"
    let ?L = "e = 3 \<and> (c \<noteq> 24 \<or> b = 3)"
    obtain m d where md: "month_day ?L r = (m, d)" by force
    have f: "fromordinal n = Date ?y m d"
      using un norm md by (simp add: fromordinal_def)
    have dby: "days_before_year ?y = 146097 * a + 36524 * b + 1461 * c + 365 * e"
      by (rule dby_decomp) (use dg(2,4,5,6) norm in simp_all)
    have lp: "is_leap ?y = ?L"
      by (rule leap_decomp) (use dg(2,4,5,6) norm in simp_all)
    note mp = month_day_props[OF dg(8,9) md]
    have n: "days_before_year ?y + r + 1 = n" using dby dg(1) by simp
    have lo: "1 \<le> ?y" if "1 \<le> n" using a0[OF that] dg(2,4,6) by simp
    have hi: "?y \<le> 9999" if "n \<le> 3652059"
    proof -
      have "146097 * a + 36524 * b + 1461 * c + 365 * e + r \<le> 3652058"
        using that dg(1) by simp
      from year_upper[OF dg(2) norm(1) dg(4,5,6) norm(2) dg(8) this] show ?thesis by simp
    qed
    show thesis
      by (rule regular[OF f n dg(8,9)]) (use mp lp lo hi in simp_all)
  qed
qed

lemma toordinal_fromordinal: "toordinal (fromordinal n) = n"
proof (cases n rule: fromordinal_cases)
  case (last_day y)
  then show ?thesis
    by (simp add: toordinal_def ymd2ord_def days_before_month_def DAYS_BEFORE_MONTH_def)
next
  case (regular y m d r)
  then show ?thesis
    by (simp add: toordinal_def ymd2ord_def days_before_month_def)
qed

lemma valid_fromordinal:
  assumes "1 \<le> n" "n \<le> MAXORDINAL"
  shows "valid_date (fromordinal n)"
proof (cases n rule: fromordinal_cases)
  case (last_day y)
  with assms show ?thesis
    by (simp add: valid_date_def MINYEAR_def MAXYEAR_def MAXORDINAL_def days_in_month_def
        DAYS_IN_MONTH_def)
next
  case (regular y m d r)
  with assms show ?thesis
    by (simp add: valid_date_def MINYEAR_def MAXYEAR_def MAXORDINAL_def days_in_month_def)
qed

lemma toordinal_examples:
  "toordinal (Date 1 2 2) = 33" "toordinal (Date 9999 12 30) = MAXORDINAL - 1"
  "toordinal (Date 9999 12 31) = MAXORDINAL" "toordinal (Date 2020 3 1) = 737485"
  by (simp_all add: toordinal_def ymd2ord_def days_before_year_def days_before_month_def
      DAYS_BEFORE_MONTH_def is_leap_def MAXORDINAL_def)

lemma fromordinal_examples:
  "fromordinal 737486 = Date 2020 3 2" "fromordinal 737478 = Date 2020 2 23"
  "fromordinal 737453 = Date 2020 1 29"
  by (simp_all add: fromordinal_def ord2ymd_def DI400Y_def DI100Y_def DI4Y_def Let_def
      DAYS_BEFORE_MONTH_def DAYS_IN_MONTH_def)

section \<open>Ordinals count calendar days\<close>

lemma div_step:
  fixes y k :: int
  assumes "0 < k"
  shows "y div k = (y - 1) div k + (if y mod k = 0 then 1 else 0)"
proof (cases "y mod k = 0")
  case True
  have "y = k * (y div k) + y mod k" by simp
  with True have e: "y - 1 = k * (y div k - 1) + (k - 1)" by (simp add: algebra_simps)
  have "(y - 1) div k = y div k - 1"
    by (rule int_div_pos_eq[OF e]) (use assms in simp_all)
  with True show ?thesis by simp
next
  case False
  have "0 \<le> y mod k" "y mod k < k" using assms by simp_all
  with False have r: "0 \<le> y mod k - 1" "y mod k - 1 < k" by simp_all
  have "y = k * (y div k) + y mod k" by simp
  then have e: "y - 1 = k * (y div k) + (y mod k - 1)" by simp
  have "(y - 1) div k = y div k"
    by (rule int_div_pos_eq[OF e r])
  with False show ?thesis by simp
qed

lemma days_before_year_step:
  "days_before_year (y + 1) = days_before_year y + 365 + (if is_leap y then 1 else 0)"
proof -
  have m100: "y mod 4 = 0" if "y mod 100 = 0"
  proof -
    have "y mod 100 mod 4 = y mod 4" by (rule mod_mod_cancel) simp
    with that show ?thesis by simp
  qed
  have m400: "y mod 100 = 0" if "y mod 400 = 0"
  proof -
    have "y mod 400 mod 100 = y mod 100" by (rule mod_mod_cancel) simp
    with that show ?thesis by simp
  qed
  have d4: "y div 4 = (y - 1) div 4 + (if y mod 4 = 0 then 1 else 0)"
    and d100: "y div 100 = (y - 1) div 100 + (if y mod 100 = 0 then 1 else 0)"
    and d400: "y div 400 = (y - 1) div 400 + (if y mod 400 = 0 then 1 else 0)"
    by (rule div_step, simp)+
  have leap: "(if is_leap y then 1 else (0::int)) =
      (if y mod 4 = 0 then 1 else 0) - (if y mod 100 = 0 then 1 else 0)
         + (if y mod 400 = 0 then 1 else 0)"
  proof (cases "y mod 400 = 0")
    case True
    from m400[OF True] have a: "y mod 100 = 0" .
    from m100[OF a] have b: "y mod 4 = 0" .
    from True a b show ?thesis by (simp add: is_leap_def)
  next
    case n400: False
    show ?thesis
    proof (cases "y mod 100 = 0")
      case True
      from m100[OF True] have b: "y mod 4 = 0" .
      from True n400 b show ?thesis by (simp add: is_leap_def)
    next
      case False
      with n400 show ?thesis by (simp add: is_leap_def)
    qed
  qed
  have "y * 365 = (y - 1) * 365 + 365" by (simp add: algebra_simps)
  then have "y * 365 + y div 4 - y div 100 + y div 400 =
      (y - 1) * 365 + (y - 1) div 4 - (y - 1) div 100 + (y - 1) div 400 + 365
      + ((if y mod 4 = 0 then 1 else 0) - (if y mod 100 = 0 then 1 else 0)
         + (if y mod 400 = 0 then 1 else 0))"
    using d4 d100 d400 by linarith
  then show ?thesis
    unfolding days_before_year_def add_diff_cancel_right' leap .
qed

lemma days_before_year_mono:
  assumes "y \<le> y'"
  shows "days_before_year y \<le> days_before_year y'"
  using assms
proof (induction y' rule: int_ge_induct)
  case base
  show ?case by simp
next
  case (step i)
  have "days_before_year (i + 1) = days_before_year i + 365 + (if is_leap i then 1 else 0)"
    by (rule days_before_year_step)
  with step show ?case by simp
qed

lemma month_cases:
  fixes m :: int
  assumes "1 \<le> m" "m \<le> 12"
  obtains "m = 1" | "m = 2" | "m = 3" | "m = 4" | "m = 5" | "m = 6" | "m = 7" | "m = 8"
  | "m = 9" | "m = 10" | "m = 11" | "m = 12"
proof -
  from assms have "m = 1 \<or> m = 2 \<or> m = 3 \<or> m = 4 \<or> m = 5 \<or> m = 6 \<or> m = 7 \<or> m = 8
    \<or> m = 9 \<or> m = 10 \<or> m = 11 \<or> m = 12" by arith
  then show thesis using that by blast
qed

lemma days_before_month_step:
  assumes "1 \<le> m" "m \<le> 11"
  shows "days_before_month y (m + 1) = days_before_month y m + days_in_month y m"
proof -
  from assms have "1 \<le> m" "m \<le> 12" by simp_all
  then show ?thesis
    using assms(2)
    by (cases m rule: month_cases)
       (simp_all add: days_before_month_def days_in_month_def DAYS_BEFORE_MONTH_def DAYS_IN_MONTH_def)
qed

lemma days_in_month_bounds:
  assumes "1 \<le> m" "m \<le> 12"
  shows "28 \<le> days_in_month y m" "days_in_month y m \<le> 31"
  using assms
  by (cases m rule: month_cases;
      simp add: days_in_month_def DAYS_IN_MONTH_def)+

lemma days_before_month_bounds:
  assumes "1 \<le> m" "m \<le> 12"
  shows "0 \<le> days_before_month y m"
    "days_before_month y m + days_in_month y m \<le> 365 + (if is_leap y then 1 else 0)"
  using assms
  by (cases m rule: month_cases;
      simp add: days_before_month_def days_in_month_def DAYS_BEFORE_MONTH_def DAYS_IN_MONTH_def)+

lemma days_before_month_mono:
  assumes "1 \<le> m" "m \<le> m'" "m' \<le> 12"
  shows "days_before_month y m \<le> days_before_month y m'"
  using assms(2,1,3)
proof (induction m' rule: int_ge_induct)
  case base
  show ?case by simp
next
  case (step i)
  then have "days_before_month y (i + 1) = days_before_month y i + days_in_month y i"
    by (intro days_before_month_step) simp_all
  moreover have "28 \<le> days_in_month y i" using step by (intro days_in_month_bounds) simp_all
  ultimately show ?case using step by simp
qed

text \<open>The ordinal of the day after a date is one more than the ordinal of the date.\<close>

lemma toordinal_next_day:
  assumes "valid_date d"
  shows "toordinal (next_day d) = toordinal d + 1"
proof -
  from assms have m: "1 \<le> month d" "month d \<le> 12"
    and dd: "1 \<le> day d" "day d \<le> days_in_month (year d) (month d)"
    by (simp_all add: valid_date_def)
  consider (same_month) "day d < days_in_month (year d) (month d)"
    | (next_month) "day d = days_in_month (year d) (month d)" "month d < 12"
    | (next_year) "day d = days_in_month (year d) (month d)" "month d = 12"
    using m dd by linarith
  then show ?thesis
  proof cases
    case same_month
    then show ?thesis by (simp add: next_day_def toordinal_def ymd2ord_def)
  next
    case next_month
    with m have "days_before_month (year d) (month d + 1) =
        days_before_month (year d) (month d) + days_in_month (year d) (month d)"
      by (intro days_before_month_step) simp_all
    with next_month show ?thesis by (simp add: next_day_def toordinal_def ymd2ord_def)
  next
    case next_year
    then have "day d = 31" by (simp add: days_in_month_def DAYS_IN_MONTH_def)
    with next_year show ?thesis
      by (simp add: next_day_def toordinal_def ymd2ord_def days_before_year_step
          days_before_month_def days_in_month_def DAYS_BEFORE_MONTH_def DAYS_IN_MONTH_def)
  qed
qed

lemma toordinal_bounds:
  assumes "valid_date d"
  shows "days_before_year (year d) < toordinal d" "toordinal d \<le> days_before_year (year d + 1)"
proof -
  from assms have m: "1 \<le> month d" "month d \<le> 12"
    and dd: "1 \<le> day d" "day d \<le> days_in_month (year d) (month d)"
    by (simp_all add: valid_date_def)
  from days_before_month_bounds[OF m, of "year d"] dd
  show "days_before_year (year d) < toordinal d" "toordinal d \<le> days_before_year (year d + 1)"
    by (simp_all add: toordinal_def ymd2ord_def days_before_year_step)
qed

text \<open>Two dates with the same ordinal are the same date.\<close>

lemma toordinal_inject:
  assumes "valid_date a" "valid_date b" "toordinal a = toordinal b"
  shows "a = b"
proof -
  have year_le: "year x \<le> year y" if "valid_date x" "valid_date y" "toordinal x = toordinal y"
    for x y
  proof (rule ccontr)
    assume "\<not> year x \<le> year y"
    then have "year y + 1 \<le> year x" by simp
    then have "days_before_year (year y + 1) \<le> days_before_year (year x)"
      by (rule days_before_year_mono)
    with toordinal_bounds(2)[OF that(2)] toordinal_bounds(1)[OF that(1)] that(3)
    show False by simp
  qed
  have y: "year a = year b"
    using year_le[OF assms] year_le[OF assms(2,1)] assms(3) by simp
  have month_le: "month x \<le> month z" if "valid_date x" "valid_date z" "year x = year z"
    "toordinal x = toordinal z" for x z
  proof (rule ccontr)
    assume "\<not> month x \<le> month z"
    then have lt: "month z + 1 \<le> month x" by simp
    from that(1,2) have mx: "month x \<le> 12" and mz: "1 \<le> month z"
      and dz: "day z \<le> days_in_month (year z) (month z)" and dx: "1 \<le> day x"
      by (simp_all add: valid_date_def)
    have "days_before_month (year z) (month z + 1) =
        days_before_month (year z) (month z) + days_in_month (year z) (month z)"
      using mz lt mx by (intro days_before_month_step) simp_all
    moreover have "days_before_month (year z) (month z + 1) \<le> days_before_month (year z) (month x)"
      using mz lt mx by (intro days_before_month_mono) simp_all
    ultimately show False
      using that(3,4) dz dx by (simp add: toordinal_def ymd2ord_def)
  qed
  have m: "month a = month b"
    using month_le[OF assms(1,2) y assms(3)] month_le[OF assms(2,1) y[symmetric] assms(3)[symmetric]]
    by simp
  from assms(3) y m have "day a = day b" by (simp add: toordinal_def ymd2ord_def)
  with y m show ?thesis by (simp add: date.expand)
qed

lemma valid_next_day:
  assumes "valid_date d" "toordinal d < MAXORDINAL"
  shows "valid_date (next_day d)"
proof -
  from assms(1) have y: "1 \<le> year d" "year d \<le> 9999" and m: "1 \<le> month d" "month d \<le> 12"
    and dd: "1 \<le> day d" "day d \<le> days_in_month (year d) (month d)"
    by (simp_all add: valid_date_def MINYEAR_def MAXYEAR_def)
  consider (same_month) "day d < days_in_month (year d) (month d)"
    | (next_month) "day d = days_in_month (year d) (month d)" "month d < 12"
    | (next_year) "day d = days_in_month (year d) (month d)" "month d = 12"
    using m dd by linarith
  then show ?thesis
  proof cases
    case same_month
    with y m dd show ?thesis
      by (simp add: next_day_def valid_date_def MINYEAR_def MAXYEAR_def)
  next
    case next_month
    with m have "28 \<le> days_in_month (year d) (month d + 1)"
      by (intro days_in_month_bounds) simp_all
    with next_month y m show ?thesis
      by (simp add: next_day_def valid_date_def MINYEAR_def MAXYEAR_def)
  next
    case next_year
    then have d31: "day d = 31" by (simp add: days_in_month_def DAYS_IN_MONTH_def)
    have "year d \<noteq> 9999"
    proof
      assume "year d = 9999"
      with next_year(2) d31 have "d = Date 9999 12 31" by (simp add: date.expand)
      with assms(2) show False by (simp add: toordinal_examples)
    qed
    with y have "year d + 1 \<le> 9999" by simp
    with next_year y show ?thesis
      by (simp add: next_day_def valid_date_def MINYEAR_def MAXYEAR_def days_in_month_def
          DAYS_IN_MONTH_def)
  qed
qed

lemma next_day_funpow:
  assumes "valid_date d" "toordinal d + int k \<le> MAXORDINAL"
  shows "valid_date ((next_day ^^ k) d) \<and> toordinal ((next_day ^^ k) d) = toordinal d + int k"
  using assms(2)
proof (induction k)
  case 0
  with assms(1) show ?case by simp
next
  case (Suc k)
  then have ih: "valid_date ((next_day ^^ k) d)" "toordinal ((next_day ^^ k) d) = toordinal d + int k"
    by simp_all
  with Suc.prems have "toordinal ((next_day ^^ k) d) < MAXORDINAL" by simp
  from valid_next_day[OF ih(1) this] toordinal_next_day[OF ih(1)] ih(2) show ?case by simp
qed

lemma toordinal_range:
  assumes "valid_date d"
  shows "1 \<le> toordinal d" "toordinal d \<le> MAXORDINAL"
proof -
  have c: "days_before_year 1 = 0" "days_before_year 10000 = 3652059"
    by (simp_all add: days_before_year_def)
  from assms have y: "1 \<le> year d" "year d + 1 \<le> 10000"
    by (simp_all add: valid_date_def MINYEAR_def MAXYEAR_def)
  have "days_before_year 1 \<le> days_before_year (year d)"
    "days_before_year (year d + 1) \<le> days_before_year 10000"
    by (rule days_before_year_mono, rule y)+
  with toordinal_bounds[OF assms] c show "1 \<le> toordinal d" "toordinal d \<le> MAXORDINAL"
    unfolding MAXORDINAL_def by linarith+
qed

lemma fromordinal_toordinal:
  assumes "valid_date d"
  shows "fromordinal (toordinal d) = d"
proof -
  have "valid_date (fromordinal (toordinal d))"
    using toordinal_range[OF assms] by (rule valid_fromordinal)
  then show ?thesis using assms by (rule toordinal_inject) (rule toordinal_fromordinal)
qed

text \<open>Going back \<open>k\<close> days by ordinals and then forward \<open>k\<close> days on the calendar gives the
  date again; going forward one day by ordinals is the calendar's next day.\<close>

lemma fromordinal_back:
  assumes "valid_date d" "0 < toordinal d - int k"
  shows "valid_date (fromordinal (toordinal d - int k))"
    "(next_day ^^ k) (fromordinal (toordinal d - int k)) = d"
proof -
  let ?b = "fromordinal (toordinal d - int k)"
  note top = toordinal_range(2)[OF assms(1)]
  with assms(2) show v: "valid_date ?b" by (intro valid_fromordinal) simp_all
  have "toordinal ?b + int k \<le> MAXORDINAL" using top by (simp add: toordinal_fromordinal)
  from next_day_funpow[OF v this]
  have "valid_date ((next_day ^^ k) ?b)" "toordinal ((next_day ^^ k) ?b) = toordinal d"
    by (simp_all add: toordinal_fromordinal)
  then show "(next_day ^^ k) ?b = d" using assms(1) by (intro toordinal_inject)
qed

lemma fromordinal_forward:
  assumes "valid_date d" "toordinal d < MAXORDINAL"
  shows "fromordinal (toordinal d + 1) = next_day d"
proof -
  have "fromordinal (toordinal (next_day d)) = next_day d"
    using valid_next_day[OF assms] by (rule fromordinal_toordinal)
  then show ?thesis by (simp add: toordinal_next_day[OF assms(1)])
qed


section \<open>The date window\<close>

lemma set_dates_PyDate:
  "set_dates e (PyDate D) self =
     (if 33 \<le> toordinal D \<and> toordinal D < MAXORDINAL
      then Inr (self\<lparr>date := D, tomorrow := fromordinal (toordinal D + 1),
                     one_week := fromordinal (toordinal D - 7),
                     one_month := fromordinal (toordinal D - 32)\<rparr>)
      else Inl OverflowError)"
  unfolding set_dates_def date_add_def date_sub_def MAXORDINAL_def
  by (simp add: Let_def)

lemma set_dates_not_date:
  "\<not> type_is_date dt \<Longrightarrow> set_dates e dt self = set_dates e (PyDate (today e)) self"
  unfolding set_dates_def by simp

text \<open>
  Claim C2, as amended.  The constructor computes the window for every reference date \<open>D\<close>
  from 0001-02-02 (ordinal 33) to 9999-12-30 (the day before the last ordinal): \<open>tomorrow\<close>
  is the calendar's next day after \<open>D\<close>, and \<open>D\<close> is reached from \<open>one_week\<close> in seven and
  from \<open>one_month\<close> in thirty-two steps to the next day, whatever month, year or leap-year
  boundary lies between; in ordinals, the three are at \<open>+1\<close>, \<open>-7\<close> and \<open>-32\<close> of \<open>D\<close>.  For any
  other reference date \<^verbatim>\<open>set_dates\<close> raises \<^verbatim>\<open>OverflowError\<close>.
\<close>

theorem set_dates_window:
  "(valid_date D \<and> 33 \<le> toordinal D \<and> toordinal D < MAXORDINAL \<longrightarrow>
      (\<exists>r. set_dates e (PyDate D) self = Inr r \<and> date r = D
         \<and> valid_date (tomorrow r) \<and> valid_date (one_week r) \<and> valid_date (one_month r)
         \<and> tomorrow r = next_day D
         \<and> (next_day ^^ 7) (one_week r) = D
         \<and> (next_day ^^ 32) (one_month r) = D
         \<and> toordinal (tomorrow r) = toordinal D + 1
         \<and> toordinal (one_week r) = toordinal D - 7
         \<and> toordinal (one_month r) = toordinal D - 32))
   \<and> (\<not> (33 \<le> toordinal D \<and> toordinal D < MAXORDINAL) \<longrightarrow>
        set_dates e (PyDate D) self = Inl OverflowError)"
proof (intro conjI impI)
  assume a: "valid_date D \<and> 33 \<le> toordinal D \<and> toordinal D < MAXORDINAL"
  then have v: "valid_date D" and range: "33 \<le> toordinal D" "toordinal D < MAXORDINAL"
    by simp_all
  let ?r = "self\<lparr>date := D, tomorrow := fromordinal (toordinal D + 1),
                  one_week := fromordinal (toordinal D - 7),
                  one_month := fromordinal (toordinal D - 32)\<rparr>"
  have r: "set_dates e (PyDate D) self = Inr ?r"
    using range by (simp add: set_dates_PyDate)
  have t: "fromordinal (toordinal D + 1) = next_day D"
    using v range(2) by (rule fromordinal_forward)
  have "0 < toordinal D - int 7" "0 < toordinal D - int 32" using range by simp_all
  from fromordinal_back[OF v this(1)] fromordinal_back[OF v this(2)]
  have b: "valid_date (fromordinal (toordinal D - 7))"
    "(next_day ^^ 7) (fromordinal (toordinal D - 7)) = D"
    "valid_date (fromordinal (toordinal D - 32))"
    "(next_day ^^ 32) (fromordinal (toordinal D - 32)) = D"
    by simp_all
  have "valid_date (next_day D)" using v range(2) by (rule valid_next_day)
  with r t b show "\<exists>r. set_dates e (PyDate D) self = Inr r \<and> date r = D
         \<and> valid_date (tomorrow r) \<and> valid_date (one_week r) \<and> valid_date (one_month r)
         \<and> tomorrow r = next_day D
         \<and> (next_day ^^ 7) (one_week r) = D
         \<and> (next_day ^^ 32) (one_month r) = D
         \<and> toordinal (tomorrow r) = toordinal D + 1
         \<and> toordinal (one_week r) = toordinal D - 7
         \<and> toordinal (one_month r) = toordinal D - 32"
    by (simp add: toordinal_fromordinal toordinal_next_day[OF v])
next
  assume "\<not> (33 \<le> toordinal D \<and> toordinal D < MAXORDINAL)"
  then show "set_dates e (PyDate D) self = Inl OverflowError"
    by (simp add: set_dates_PyDate)
qed

lemma valid_date_examples: "valid_date (Date 2020 3 1)" "valid_date (Date 9999 12 31)"
  by (simp_all add: valid_date_def MINYEAR_def MAXYEAR_def days_in_month_def DAYS_IN_MONTH_def)

theorem set_dates_window_witness:
  "(\<exists>r. set_dates example_env (PyDate (Date 2020 3 1)) new_instance = Inr r \<and> date r = Date 2020 3 1
       \<and> tomorrow r = Date 2020 3 2 \<and> one_week r = Date 2020 2 23 \<and> one_month r = Date 2020 1 29
       \<and> next_day (Date 2020 3 1) = Date 2020 3 2
       \<and> (next_day ^^ 7) (Date 2020 2 23) = Date 2020 3 1
       \<and> (next_day ^^ 32) (Date 2020 1 29) = Date 2020 3 1)
   \<and> set_dates example_env (PyDate (Date 9999 12 31)) new_instance = Inl OverflowError"
proof -
  have h: "valid_date (Date 2020 3 1) \<and> 33 \<le> toordinal (Date 2020 3 1)
      \<and> toordinal (Date 2020 3 1) < MAXORDINAL"
    by (simp add: valid_date_examples toordinal_examples MAXORDINAL_def)
  have n: "\<not> (33 \<le> toordinal (Date 9999 12 31) \<and> toordinal (Date 9999 12 31) < MAXORDINAL)"
    by (simp add: toordinal_examples)
  have s: "set_dates example_env (PyDate (Date 2020 3 1)) new_instance =
      Inr (new_instance\<lparr>date := Date 2020 3 1, tomorrow := Date 2020 3 2,
             one_week := Date 2020 2 23, one_month := Date 2020 1 29\<rparr>)"
    by (simp add: set_dates_PyDate toordinal_examples fromordinal_examples MAXORDINAL_def)
  note w = set_dates_window[where D = "Date 2020 3 1" and e = example_env and self = new_instance]
  note x = set_dates_window[where D = "Date 9999 12 31" and e = example_env and self = new_instance]
  from w[THEN conjunct1, rule_format, OF h] s
  have "tomorrow (new_instance\<lparr>date := Date 2020 3 1, tomorrow := Date 2020 3 2,
             one_week := Date 2020 2 23, one_month := Date 2020 1 29\<rparr>) = next_day (Date 2020 3 1)"
    "(next_day ^^ 7) (one_week (new_instance\<lparr>date := Date 2020 3 1, tomorrow := Date 2020 3 2,
             one_week := Date 2020 2 23, one_month := Date 2020 1 29\<rparr>)) = Date 2020 3 1"
    "(next_day ^^ 32) (one_month (new_instance\<lparr>date := Date 2020 3 1, tomorrow := Date 2020 3 2,
             one_week := Date 2020 2 23, one_month := Date 2020 1 29\<rparr>)) = Date 2020 3 1"
    by auto
  then have "next_day (Date 2020 3 1) = Date 2020 3 2"
    "(next_day ^^ 7) (Date 2020 2 23) = Date 2020 3 1"
    "(next_day ^^ 32) (Date 2020 1 29) = Date 2020 3 1"
    by simp_all
  with s x[THEN conjunct2, rule_format, OF n] show ?thesis by simp
qed

theorem set_dates_overflow_counterexample:
  "valid_date (Date 9999 12 31) \<and>
   set_dates example_env (PyDate (Date 9999 12 31)) new_instance = Inl OverflowError"
  by (simp add: set_dates_PyDate toordinal_examples valid_date_examples)

section \<open>Laws of the computations\<close>



lemma io_bind_cases:
  assumes "io_bind m f w = (r, w')"
  obtains (raised) err where "m w = (Inl err, w')" "r = Inl err"
  | (returned) x w1 where "m w = (Inr x, w1)" "f x w1 = (r, w')"
  using assms by (auto simp: io_bind_def split: prod.splits sum.splits)


subsection \<open>Which events a computation appends\<close>

lemma emitsI:
  assumes "\<And>w r w'. m w = (r, w') \<Longrightarrow> \<exists>evs. trace w' = trace w @ evs \<and> list_all P evs"
  shows "emits P m"
  using assms unfolding emits_def by blast

lemma emitsD:
  assumes "emits P m" "m w = (r, w')"
  obtains evs where "trace w' = trace w @ evs" "list_all P evs"
  using assms unfolding emits_def by blast

lemma emits_silent:
  assumes "\<And>w r w'. m w = (r, w') \<Longrightarrow> trace w' = trace w"
  shows "emits P m"
proof (rule emitsI)
  fix w r w' assume "m w = (r, w')"
  then have "trace w' = trace w @ [] \<and> list_all P []" using assms by simp
  then show "\<exists>evs. trace w' = trace w @ evs \<and> list_all P evs" by blast
qed

lemma emits_weaken:
  assumes "emits P m" "\<And>ev. P ev \<Longrightarrow> Q ev"
  shows "emits Q m"
proof (rule emitsI)
  fix w r w' assume "m w = (r, w')"
  with assms(1) obtain evs where "trace w' = trace w @ evs" "list_all P evs"
    by (rule emitsD)
  moreover from this(2) assms(2) have "list_all Q evs" by (simp add: list_all_iff)
  ultimately show "\<exists>evs. trace w' = trace w @ evs \<and> list_all Q evs" by blast
qed

lemma emits_return [intro!]: "emits P (io_return x)"
  by (rule emits_silent) (simp add: io_return_def)

lemma emits_raise [intro!]: "emits P (io_raise x)"
  by (rule emits_silent) (simp add: io_raise_def)

lemma emits_lift [intro!]: "emits P (io_lift x)"
  by (rule emits_silent) (simp add: io_lift_def)

lemma emits_bind [intro!]:
  assumes "emits P m" "\<And>x. emits P (f x)"
  shows "emits P (io_bind m f)"
proof (rule emitsI)
  fix w r w' assume "io_bind m f w = (r, w')"
  then show "\<exists>evs. trace w' = trace w @ evs \<and> list_all P evs"
  proof (cases rule: io_bind_cases)
    case (raised err)
    with assms(1) show ?thesis unfolding emits_def by blast
  next
    case (returned x w1)
    from assms(1) returned(1) obtain evs1 where 1: "trace w1 = trace w @ evs1" "list_all P evs1"
      by (rule emitsD)
    from assms(2) returned(2) obtain evs2 where 2: "trace w' = trace w1 @ evs2" "list_all P evs2"
      by (rule emitsD)
    from 1 2 have "trace w' = trace w @ (evs1 @ evs2) \<and> list_all P (evs1 @ evs2)" by simp
    then show ?thesis by blast
  qed
qed

lemma emits_if [intro!]:
  assumes "b \<Longrightarrow> emits P m" "\<not> b \<Longrightarrow> emits P n"
  shows "emits P (if b then m else n)"
  using assms by simp

lemma emits_record_event [intro!]:
  assumes "P ev"
  shows "emits P (record_event ev)"
proof (rule emitsI)
  fix w r w' assume "record_event ev w = (r, w' :: 'a world)"
  then have "trace w' = trace w @ [ev] \<and> list_all P [ev]"
    using assms by (auto simp: record_event_def)
  then show "\<exists>evs. trace w' = trace w @ evs \<and> list_all P evs" by blast
qed

lemma emits_call_hook [intro!]:
  assumes "P (HookCalled h)"
  shows "emits P (call_hook h m n self)"
proof (rule emitsI)
  fix w r w' assume "call_hook h m n self w = (r, w')"
  then have "trace w' = trace w @ [HookCalled h] \<and> list_all P [HookCalled h]"
    using assms by (auto simp: call_hook_def Let_def split: if_splits prod.splits)
  then show "\<exists>evs. trace w' = trace w @ evs \<and> list_all P evs" by blast
qed

lemma emits_os_remove [intro!]:
  assumes "P (Removed p)"
  shows "emits P (os_remove p)"
proof (rule emitsI)
  fix w r w' assume "os_remove p w = (r, w' :: 'a world)"
  then have "(trace w' = trace w @ [] \<and> list_all P []) \<or>
      (trace w' = trace w @ [Removed p] \<and> list_all P [Removed p])"
    using assms by (auto simp: os_remove_def split: option.splits)
  then show "\<exists>evs. trace w' = trace w @ evs \<and> list_all P evs" by blast
qed

lemma emits_msg_send [intro!]:
  assumes "P (SendCalled msg)" "\<And>k. P (SendReturned k)"
  shows "emits P (msg_send e msg)"
  unfolding msg_send_def using assms by (intro emits_bind emits_record_event emits_lift emits_return)

lemma emits_read_file [intro!]: "emits P (read_file p)"
  by (rule emits_silent) (auto simp: read_file_def split: option.splits)

lemma emits_fwrite [intro!]: "emits P (fwrite f s)"
  by (rule emits_silent) (cases f; auto split: if_splits option.splits)

lemma emits_fclose [intro!]: "emits P (fclose f)"
  by (rule emits_silent) (cases f; auto)

lemma emits_writerows [intro!]: "emits P (writerows f rows)"
  by (induction rows) (auto intro!: emits_bind)

lemma emits_new_file [intro!]: "emits P (new_file p)"
  by (rule emits_silent) (auto simp: new_file_def)

lemma emits_py_open_w [intro!]: "emits P (py_open_w e p)"
  by (rule emits_silent) (auto simp: py_open_w_def new_file_def split: if_splits)

lemma mkstemp_inner_trace:
  "mkstemp_inner e ps w = (r, w') \<Longrightarrow> trace w' = trace w"
  by (induction ps) (auto simp: new_file_def split: if_splits)

lemma emits_NamedTemporaryFile [intro!]: "emits P (NamedTemporaryFile e)"
  unfolding NamedTemporaryFile_def by (rule emits_silent) (rule mkstemp_inner_trace)

lemma emits_get_file [intro!]: "emits P (get_file e self filename)"
  unfolding get_file_def by (auto simp: Let_def split: option.splits)





section \<open>Construction\<close>

lemma get_file_view:
  "view self \<Longrightarrow> get_file e self filename w = (Inr Stdout, w)"
  by (simp add: get_file_def io_return_def)

text \<open>The temporary file gets the first candidate name that no file has.\<close>

lemma mkstemp_inner_find:
  "mkstemp_inner e ps w =
     (case find (\<lambda>p. fs w p = None) ps of
        None \<Rightarrow> (Inl IOError, w)
      | Some p \<Rightarrow> if may_open e p then new_file p w else (Inl OSError, w))"
  by (induction ps) simp_all


lemma get_file_temp:
  assumes "\<not> view self" "\<not> truthy filename"
  shows "get_file e self filename = NamedTemporaryFile e"
  using assms by (simp add: get_file_def)

lemma get_file_named:
  assumes "\<not> view self" "n \<noteq> []"
  shows "get_file e self (Some n) =
           py_open_w e (if CHR ''~'' \<in> set n then py_replace n CHR ''~'' (home e) else n)"
  using assms by (simp add: get_file_def Let_def)

text \<open>What \<^verbatim>\<open>__init__\<close> does once the frequency has passed the check.\<close>

lemma init_supported:
  assumes "frequencies cls = Some freqs" "freq \<in> set freqs"
  shows "init cls e freq dt vw filename rcpts report_args w =
     (case set_dates e dt (new_instance\<lparr>frequency := freq\<rparr>) of
        Inl err \<Rightarrow> (Inl err, w)
      | Inr r \<Rightarrow>
         (case get_file e (r\<lparr>view := vw, send := \<not> (truthy filename \<or> vw)\<rparr>) filename w of
            (Inl err, w1) \<Rightarrow> (Inl err, w1)
          | (Inr f, w1) \<Rightarrow>
             (case current_site e of
                Inl err \<Rightarrow> (Inl err, w1)
              | Inr s \<Rightarrow>
                 (Inr (r\<lparr>view := vw, send := \<not> (truthy filename \<or> vw), file := f,
                         recipients := (if truthy rcpts then rcpts else None), site := s,
                         args := report_args\<rparr>), w1))))"
  using assms
  by (simp add: init_def class_attr_def io_bind_def io_lift_def io_return_def Let_def
      split: sum.splits prod.splits)

lemma set_dates_frame:
  assumes "set_dates e dt self = Inr r"
  shows "frequency r = frequency self" "view r = view self" "send r = send self"
    "file r = file self" "recipients r = recipients self" "site r = site self" "args r = args self"
  using assms
  by (auto simp: set_dates_def Let_def split: sum.splits if_splits pyval.splits)

lemma set_dates_errors:
  assumes "set_dates e dt self = Inl err"
  shows "err = OverflowError"
  using assms
  by (auto simp: set_dates_def date_add_def date_sub_def Let_def split: sum.splits if_splits)

lemma get_file_result:
  assumes "get_file e self filename w = (r, w1)"
  shows "trace w1 = trace w" "stdout w1 = stdout w" "stdout_closed w1 = stdout_closed w"
    "db w1 = db w" "\<And>err. r = Inl err \<Longrightarrow> (err = IOError \<or> err = OSError) \<and> w1 = w"
  using assms
  by (auto simp: get_file_def io_return_def py_open_w_def NamedTemporaryFile_def
      mkstemp_inner_find new_file_def Let_def split: if_splits option.splits)

lemma init_result:
  assumes "init cls e freq dt vw filename rcpts report_args w = (Inr self, w1)"
  shows "\<exists>freqs. frequencies cls = Some freqs \<and> freq \<in> set freqs"
    "frequency self = freq" "view self = vw"
    "send self = (\<not> (truthy filename \<or> vw))"
    "recipients self = (if truthy rcpts then rcpts else None)" "args self = report_args"
    "\<exists>s. view s = vw \<and> get_file e s filename w = (Inr (file self), w1)"
    "\<exists>r. set_dates e dt (new_instance\<lparr>frequency := freq\<rparr>) = Inr r \<and> date self = date r
        \<and> tomorrow self = tomorrow r \<and> one_week self = one_week r \<and> one_month self = one_month r"
proof -
  from assms obtain freqs where f: "frequencies cls = Some freqs" "freq \<in> set freqs"
    by (cases "frequencies cls"; cases "name cls")
       (auto simp: init_def class_attr_def io_bind_def io_lift_def io_raise_def split: if_splits)
  then show "\<exists>freqs. frequencies cls = Some freqs \<and> freq \<in> set freqs" by blast
  note eq = assms[unfolded init_supported[OF f]]
  from eq obtain r where r: "set_dates e dt (new_instance\<lparr>frequency := freq\<rparr>) = Inr r"
    by (auto split: sum.splits)
  let ?s = "r\<lparr>view := vw, send := \<not> (truthy filename \<or> vw)\<rparr>"
  from eq r obtain f' where g: "get_file e ?s filename w = (Inr f', w1)"
    by (auto split: sum.splits prod.splits)
  from eq r g obtain s where s: "current_site e = Inr s"
    by (auto split: sum.splits)
  from eq r g s have self: "self = r\<lparr>view := vw, send := \<not> (truthy filename \<or> vw), file := f',
      recipients := (if truthy rcpts then rcpts else None), site := s, args := report_args\<rparr>"
    by simp
  note fr = set_dates_frame[OF r]
  show "frequency self = freq" "view self = vw" "send self = (\<not> (truthy filename \<or> vw))"
    "recipients self = (if truthy rcpts then rcpts else None)" "args self = report_args"
    using fr by (simp_all add: self)
  have "view ?s = vw \<and> get_file e ?s filename w = (Inr (file self), w1)"
    using g by (simp add: self)
  then show "\<exists>s. view s = vw \<and> get_file e s filename w = (Inr (file self), w1)" by blast
  show "\<exists>r. set_dates e dt (new_instance\<lparr>frequency := freq\<rparr>) = Inr r \<and> date self = date r
        \<and> tomorrow self = tomorrow r \<and> one_week self = one_week r \<and> one_month self = one_month r"
    using r by (simp add: self)
qed

subsection \<open>The concrete subclass\<close>

lemma example_set_dates:
  "set_dates example_env PyNone self =
     Inr (self\<lparr>date := Date 2020 3 1, tomorrow := Date 2020 3 2, one_week := Date 2020 2 23,
                one_month := Date 2020 1 29\<rparr>)"
proof -
  have "set_dates example_env PyNone self = set_dates example_env (PyDate (Date 2020 3 1)) self"
    by (simp add: set_dates_not_date example_env_def)
  then show ?thesis
    by (simp add: set_dates_PyDate toordinal_examples fromordinal_examples MAXORDINAL_def)
qed

text \<open>The instance the concrete subclass gives for the frequency \<^verbatim>\<open>daily\<close> and today's date.\<close>

lemma example_init:
  "init example_class example_env ''daily'' PyNone vw filename rcpts PyNone w =
     (case get_file example_env
             (new_instance\<lparr>frequency := ''daily'', date := Date 2020 3 1, tomorrow := Date 2020 3 2,
                one_week := Date 2020 2 23, one_month := Date 2020 1 29, view := vw,
                send := \<not> (truthy filename \<or> vw)\<rparr>) filename w of
        (Inl err, w1) \<Rightarrow> (Inl err, w1)
      | (Inr f, w1) \<Rightarrow>
          (Inr (new_instance\<lparr>frequency := ''daily'', date := Date 2020 3 1,
                 tomorrow := Date 2020 3 2, one_week := Date 2020 2 23,
                 one_month := Date 2020 1 29, view := vw, send := \<not> (truthy filename \<or> vw),
                 file := f, recipients := (if truthy rcpts then rcpts else None),
                 site := ''example.com'', args := PyNone\<rparr>), w1))"
proof -
  have f: "frequencies example_class = Some [''daily'', ''weekly'']"
    "''daily'' \<in> set [''daily'', ''weekly'']"
    by (simp_all add: example_class_def)
  have s: "current_site example_env = Inr ''example.com''" by (simp add: example_env_def)
  show ?thesis
    unfolding init_supported[OF f] example_set_dates s by (simp split: prod.splits sum.splits)
qed


text \<open>
  Claim C1, as amended.  For a subclass that declares its supported frequencies and its
  name: constructing a report with a frequency outside them raises \<^verbatim>\<open>NotAvailable\<close> (the
  exception the module defines for an unsupported frequency) with the module's message,
  before anything else is done and with nothing changed; a subclass that declares no name
  gets \<^verbatim>\<open>AttributeError\<close> there instead, from the message being built.  With a frequency
  among the supported ones the constructor succeeds whenever the reference date is between
  0001-02-02 and 9999-12-30, the output target can be opened (standard output; the first
  free temporary name; the file name given) and the site registry answers.
\<close>

theorem init_frequency:
  "(frequencies cls = Some freqs \<longrightarrow> freq \<notin> set freqs \<longrightarrow> name cls = Some nm \<longrightarrow>
      init cls e freq dt vw filename rcpts report_args w =
        (Inl (NotAvailable (not_available_message freq nm)), w))
   \<and> (frequencies cls = Some freqs \<longrightarrow> freq \<notin> set freqs \<longrightarrow> name cls = None \<longrightarrow>
        init cls e freq dt vw filename rcpts report_args w = (Inl AttributeError, w))
   \<and> (frequencies cls = Some freqs \<longrightarrow> freq \<in> set freqs \<longrightarrow>
        (dt = PyDate D \<or> (\<not> type_is_date dt \<and> D = today e)) \<longrightarrow>
        33 \<le> toordinal D \<and> toordinal D < MAXORDINAL \<longrightarrow>
        (vw \<or> (\<not> truthy filename \<and>
                (\<exists>p. find (\<lambda>p. fs w p = None) (tmp_names e) = Some p \<and> may_open e p))
            \<or> (\<exists>n. filename = Some n \<and> n \<noteq> [] \<and>
                  may_open e (if CHR ''~'' \<in> set n then py_replace n CHR ''~'' (home e) else n))) \<longrightarrow>
        current_site e = Inr s \<longrightarrow>
        (\<exists>self w1. init cls e freq dt vw filename rcpts report_args w = (Inr self, w1)
           \<and> frequency self = freq \<and> date self = D \<and> view self = vw
           \<and> send self = (\<not> (truthy filename \<or> vw)) \<and> site self = s \<and> args self = report_args))"
proof (intro conjI impI)
  assume "frequencies cls = Some freqs" "freq \<notin> set freqs" "name cls = Some nm"
  then show "init cls e freq dt vw filename rcpts report_args w =
        (Inl (NotAvailable (not_available_message freq nm)), w)"
    by (simp add: init_def class_attr_def io_bind_def io_lift_def io_raise_def)
next
  assume "frequencies cls = Some freqs" "freq \<notin> set freqs" "name cls = None"
  then show "init cls e freq dt vw filename rcpts report_args w = (Inl AttributeError, w)"
    by (simp add: init_def class_attr_def io_bind_def io_lift_def io_raise_def)
next
  assume f: "frequencies cls = Some freqs" "freq \<in> set freqs"
    and d: "dt = PyDate D \<or> (\<not> type_is_date dt \<and> D = today e)"
    and range: "33 \<le> toordinal D \<and> toordinal D < MAXORDINAL"
    and target: "vw \<or> (\<not> truthy filename \<and>
                (\<exists>p. find (\<lambda>p. fs w p = None) (tmp_names e) = Some p \<and> may_open e p))
            \<or> (\<exists>n. filename = Some n \<and> n \<noteq> [] \<and>
                  may_open e (if CHR ''~'' \<in> set n then py_replace n CHR ''~'' (home e) else n))"
    and s: "current_site e = Inr s"
  let ?new = "new_instance\<lparr>frequency := freq\<rparr>"
  have "set_dates e dt ?new = set_dates e (PyDate D) ?new"
    using d by (auto simp: set_dates_not_date)
  then obtain r where r: "set_dates e dt ?new = Inr r" "date r = D"
    using range by (simp add: set_dates_PyDate)
  let ?s = "r\<lparr>view := vw, send := \<not> (truthy filename \<or> vw)\<rparr>"
  have "\<exists>f' w1. get_file e ?s filename w = (Inr f', w1)"
  proof (cases vw)
    case True
    then show ?thesis by (simp add: get_file_view)
  next
    case False
    show ?thesis
    proof (cases "truthy filename")
      case True
      with False target obtain n where n: "filename = Some n" "n \<noteq> []"
        "may_open e (if CHR ''~'' \<in> set n then py_replace n CHR ''~'' (home e) else n)"
        by auto
      with False show ?thesis by (simp add: get_file_named py_open_w_def new_file_def)
    next
      case nt: False
      with False target obtain p where "find (\<lambda>p. fs w p = None) (tmp_names e) = Some p"
        "may_open e p" by auto
      then have "\<exists>f' w1. NamedTemporaryFile e w = (Inr f', w1)"
        by (simp add: NamedTemporaryFile_def mkstemp_inner_find new_file_def)
      with False nt show ?thesis by (simp add: get_file_temp)
    qed
  qed
  then obtain f' w1 where g: "get_file e ?s filename w = (Inr f', w1)" by blast
  have "init cls e freq dt vw filename rcpts report_args w =
      (Inr (r\<lparr>view := vw, send := \<not> (truthy filename \<or> vw), file := f',
             recipients := (if truthy rcpts then rcpts else None), site := s,
             args := report_args\<rparr>), w1)"
    unfolding init_supported[OF f] using r g s by simp
  moreover have "frequency r = freq" using set_dates_frame(1)[OF r(1)] by simp
  ultimately show "\<exists>self w1. init cls e freq dt vw filename rcpts report_args w = (Inr self, w1)
           \<and> frequency self = freq \<and> date self = D \<and> view self = vw
           \<and> send self = (\<not> (truthy filename \<or> vw)) \<and> site self = s \<and> args self = report_args"
    using r(2) by simp
qed

lemma example_frequencies:
  "frequencies example_class = Some [''daily'', ''weekly'']"
  "''daily'' \<in> set [''daily'', ''weekly'']" "''yearly'' \<notin> set [''daily'', ''weekly'']"
  "name example_class = Some ''sales''"
  "frequencies nameless_class = Some [''daily'', ''weekly'']" "name nameless_class = None"
  by (simp_all add: example_class_def nameless_class_def)

lemma example_init_overflow:
  "init example_class example_env ''daily'' (PyDate (Date 9999 12 31)) False None None PyNone
     empty_world = (Inl OverflowError, empty_world)"
  unfolding init_supported[OF example_frequencies(1,2)]
  by (simp add: set_dates_PyDate toordinal_examples)

theorem init_frequency_witness:
  "init example_class example_env ''yearly'' PyNone False None None PyNone empty_world =
     (Inl (NotAvailable ''The yearly frequency is not available for the sales report.''), empty_world)
   \<and> init nameless_class example_env ''yearly'' PyNone False None None PyNone empty_world =
       (Inl AttributeError, empty_world)
   \<and> (\<exists>self w1. init example_class example_env ''daily'' PyNone False None None PyNone empty_world
          = (Inr self, w1)
        \<and> frequency self = ''daily'' \<and> date self = Date 2020 3 1 \<and> view self = False
        \<and> send self = True \<and> site self = ''example.com'' \<and> args self = PyNone)"
proof -
  note fr = example_frequencies
  have 3: "PyNone = PyDate (Date 2020 3 1) \<or>
      (\<not> type_is_date PyNone \<and> Date 2020 3 1 = today example_env)"
    by (simp add: example_env_def)
  have 4: "33 \<le> toordinal (Date 2020 3 1) \<and> toordinal (Date 2020 3 1) < MAXORDINAL"
    by (simp add: toordinal_examples MAXORDINAL_def)
  have 5: "False \<or> (\<not> truthy None \<and>
        (\<exists>p. find (\<lambda>p. fs empty_world p = None) (tmp_names example_env) = Some p
            \<and> may_open example_env p))
      \<or> (\<exists>n. None = Some n \<and> n \<noteq> [] \<and>
            may_open example_env
              (if CHR ''~'' \<in> set n then py_replace n CHR ''~'' (home example_env) else n))"
    by (simp add: empty_world_def example_env_def)
  have 6: "current_site example_env = Inr ''example.com''" by (simp add: example_env_def)
  note t = init_frequency[where freq = "''yearly''" and cls = example_class and e = example_env
      and dt = PyNone and vw = False and filename = None and rcpts = None and report_args = PyNone
      and w = empty_world and freqs = "[''daily'', ''weekly'']" and nm = "''sales''"]
  note n = init_frequency[where freq = "''yearly''" and cls = nameless_class and e = example_env
      and dt = PyNone and vw = False and filename = None and rcpts = None and report_args = PyNone
      and w = empty_world and freqs = "[''daily'', ''weekly'']"]
  note u = init_frequency[where freq = "''daily''" and cls = example_class and e = example_env
      and dt = PyNone and vw = False and filename = None and rcpts = None and report_args = PyNone
      and w = empty_world and D = "Date 2020 3 1" and s = "''example.com''"
      and freqs = "[''daily'', ''weekly'']"]
  note a = t[THEN conjunct1, rule_format, OF fr(1) fr(3) fr(4)]
  note b = n[THEN conjunct2, THEN conjunct1, rule_format, OF fr(5) fr(3) fr(6)]
  note c = u[THEN conjunct2, THEN conjunct2, rule_format, OF fr(1) fr(2) 3 4 5 6]
  from a b c show ?thesis
    by (simp add: not_available_message_def)
qed

theorem init_overflow_counterexample:
  "frequencies example_class = Some [''daily'', ''weekly'']
   \<and> ''daily'' \<in> set [''daily'', ''weekly'']
   \<and> valid_date (Date 9999 12 31)
   \<and> init example_class example_env ''daily'' (PyDate (Date 9999 12 31)) False None None PyNone
       empty_world = (Inl OverflowError, empty_world)"
  using example_init_overflow
  by (simp add: example_class_def valid_date_def MINYEAR_def MAXYEAR_def days_in_month_def
      DAYS_IN_MONTH_def)

text \<open>
  Claim C10.  The date argument is used only when its type is exactly \<^verbatim>\<open>datetime.date\<close>, and
  then it is the reference date.  Any other value (\<^verbatim>\<open>None\<close>, a \<^verbatim>\<open>datetime\<close>, a string, a
  number) is ignored without an error: \<^verbatim>\<open>set_dates\<close> does exactly what it does for today's
  date, and with the clock inside the range of the date window it returns with today as
  the reference date.
\<close>

theorem set_dates_ignores_other_types:
  "(\<not> type_is_date dt \<longrightarrow>
      set_dates e dt self = set_dates e (PyDate (today e)) self
      \<and> (33 \<le> toordinal (today e) \<and> toordinal (today e) < MAXORDINAL \<longrightarrow>
           (\<exists>r. set_dates e dt self = Inr r \<and> date r = today e)))
   \<and> (\<forall>r. set_dates e (PyDate d) self = Inr r \<longrightarrow> date r = d)"
proof (intro conjI impI allI)
  assume nd: "\<not> type_is_date dt"
  then show eq: "set_dates e dt self = set_dates e (PyDate (today e)) self"
    by (rule set_dates_not_date)
  assume "33 \<le> toordinal (today e) \<and> toordinal (today e) < MAXORDINAL"
  then show "\<exists>r. set_dates e dt self = Inr r \<and> date r = today e"
    unfolding eq by (simp add: set_dates_PyDate)
next
  fix r assume "set_dates e (PyDate d) self = Inr r"
  then show "date r = d"
    by (auto simp: set_dates_PyDate split: if_splits)
qed

theorem set_dates_ignores_other_types_witness:
  "\<not> type_is_date (PyDateTime (Date 2019 5 5) 3600000000)
   \<and> set_dates example_env (PyDateTime (Date 2019 5 5) 3600000000) new_instance =
       set_dates example_env (PyDate (Date 2020 3 1)) new_instance
   \<and> (\<exists>r. set_dates example_env (PyDateTime (Date 2019 5 5) 3600000000) new_instance = Inr r
          \<and> date r = Date 2020 3 1)
   \<and> \<not> type_is_date (PyStr ''2019-05-05'')
   \<and> (\<exists>r. set_dates example_env (PyStr ''2019-05-05'') new_instance = Inr r
          \<and> date r = Date 2020 3 1)
   \<and> (\<exists>r. set_dates example_env (PyDate (Date 2019 5 5)) new_instance = Inr r
          \<and> date r = Date 2019 5 5)"
proof -
  have t: "today example_env = Date 2020 3 1" by (simp add: example_env_def)
  have rg: "33 \<le> toordinal (today example_env) \<and> toordinal (today example_env) < MAXORDINAL"
    by (simp add: t toordinal_examples MAXORDINAL_def)
  note a = set_dates_ignores_other_types[of "PyDateTime (Date 2019 5 5) 3600000000" example_env
      new_instance "Date 2019 5 5"]
  note b = set_dates_ignores_other_types[of "PyStr ''2019-05-05''" example_env new_instance
      "Date 2019 5 5"]
  have o: "toordinal (Date 2019 5 5) = 737184"
    by (simp add: toordinal_def ymd2ord_def days_before_year_def days_before_month_def
        DAYS_BEFORE_MONTH_def is_leap_def)
  have c: "\<exists>r. set_dates example_env (PyDate (Date 2019 5 5)) new_instance = Inr r"
    by (simp add: set_dates_PyDate o MAXORDINAL_def)
  have 1: "\<not> type_is_date (PyDateTime (Date 2019 5 5) 3600000000)"
    and 2: "\<not> type_is_date (PyStr ''2019-05-05'')" by simp_all
  from a 1 have a1: "set_dates example_env (PyDateTime (Date 2019 5 5) 3600000000) new_instance =
       set_dates example_env (PyDate (Date 2020 3 1)) new_instance"
    unfolding t by blast
  from a 1 rg have a2: "\<exists>r. set_dates example_env (PyDateTime (Date 2019 5 5) 3600000000) new_instance = Inr r
          \<and> date r = Date 2020 3 1"
    unfolding t by blast
  from b 2 rg have b2: "\<exists>r. set_dates example_env (PyStr ''2019-05-05'') new_instance = Inr r
          \<and> date r = Date 2020 3 1"
    unfolding t by blast
  from a c have c2: "\<exists>r. set_dates example_env (PyDate (Date 2019 5 5)) new_instance = Inr r
          \<and> date r = Date 2019 5 5"
    by blast
  from 1 2 a1 a2 b2 c2 show ?thesis by blast
qed


section \<open>What a run touches\<close>

lemma keeps_fsI:
  assumes "\<And>w r w'. m w = (r, w') \<Longrightarrow> fs w' = fs w"
  shows "keeps_fs m"
  using assms unfolding keeps_fs_def by blast

lemma keeps_fsD: "keeps_fs m \<Longrightarrow> m w = (r, w') \<Longrightarrow> fs w' = fs w"
  unfolding keeps_fs_def by blast

lemma keeps_fs_return [intro!]: "keeps_fs (io_return x)"
  by (rule keeps_fsI) (simp add: io_return_def)

lemma keeps_fs_raise [intro!]: "keeps_fs (io_raise x)"
  by (rule keeps_fsI) (simp add: io_raise_def)

lemma keeps_fs_lift [intro!]: "keeps_fs (io_lift x)"
  by (rule keeps_fsI) (simp add: io_lift_def)

lemma keeps_fs_bind [intro!]:
  assumes "keeps_fs m" "\<And>x. keeps_fs (f x)"
  shows "keeps_fs (io_bind m f)"
proof (rule keeps_fsI)
  fix w r w' assume "io_bind m f w = (r, w')"
  then show "fs w' = fs w"
  proof (cases rule: io_bind_cases)
    case (raised err)
    with assms(1) show ?thesis by (auto dest: keeps_fsD)
  next
    case (returned x w1)
    from keeps_fsD[OF assms(1) returned(1)] keeps_fsD[OF assms(2) returned(2)]
    show ?thesis by simp
  qed
qed

lemma keeps_fs_if [intro!]:
  assumes "b \<Longrightarrow> keeps_fs m" "\<not> b \<Longrightarrow> keeps_fs n"
  shows "keeps_fs (if b then m else n)"
  using assms by simp

lemma keeps_fs_record_event [intro!]: "keeps_fs (record_event ev)"
  by (rule keeps_fsI) (auto simp: record_event_def)

lemma keeps_fs_call_hook [intro!]: "keeps_fs (call_hook h m n self)"
  by (rule keeps_fsI) (auto simp: call_hook_def Let_def split: if_splits prod.splits)

lemma keeps_fs_read_file [intro!]: "keeps_fs (read_file p)"
  by (rule keeps_fsI) (auto simp: read_file_def split: option.splits)

lemma keeps_fs_msg_send [intro!]: "keeps_fs (msg_send e msg)"
  unfolding msg_send_def by (intro keeps_fs_bind keeps_fs_record_event keeps_fs_lift keeps_fs_return)

lemma keeps_fs_fwrite_Stdout [intro!]: "keeps_fs (fwrite Stdout s)"
  by (rule keeps_fsI) (auto split: if_splits)

lemma keeps_fs_fclose [intro!]: "keeps_fs (fclose f)"
  by (rule keeps_fsI) (cases f; auto)

lemma keeps_fs_writerows_Stdout [intro!]: "keeps_fs (writerows Stdout rows)"
  by (induction rows) (auto intro!: keeps_fs_bind)


lemma emits_nothing:
  assumes "emits (\<lambda>ev. False) m" "m w = (r, w')"
  shows "trace w' = trace w"
proof -
  from assms obtain evs where "trace w' = trace w @ evs" "list_all (\<lambda>ev. False) evs"
    by (rule emitsD)
  then show ?thesis by (cases evs) simp_all
qed

lemma call_hook_trace:
  assumes "call_hook h m n self w = (r, w')"
  shows "trace w' = trace w @ [HookCalled h]"
  using assms by (auto simp: call_hook_def Let_def split: if_splits prod.splits)

lemma call_hook_files_closed:
  assumes "call_hook h m n self w = (r, w')"
  shows "files_closed w' = files_closed w"
  using assms by (auto simp: call_hook_def Let_def split: if_splits prod.splits)



subsection \<open>The concrete subclass, constructed\<close>

lemma example_env_simps:
  "today example_env = Date 2020 3 1" "home example_env = ''/home/u''"
  "tmp_names example_env = [''/tmp/tmpA'', ''/tmp/tmpB'']" "may_open example_env p"
  "current_site example_env = Inr ''example.com''"
  "reporter_from_email example_env = ''reports@example.com''"
  "transport example_env m = Inr 1"
  "get_template example_env ''reporter/report.html'' = Inr (\<lambda>d. Inr ''<html/>'')"
  by (simp_all add: example_env_def get_template_def)

lemma empty_world_simps:
  "fs empty_world p = None" "stdout empty_world = []" "\<not> stdout_closed empty_world"
  "trace empty_world = []" "files_closed empty_world = []"
  by (simp_all add: empty_world_def)


lemma example_init_named:
  assumes "n \<noteq> []"
  shows "init example_class example_env ''daily'' PyNone False (Some n) rcpts PyNone empty_world =
     (Inr (new_instance\<lparr>frequency := ''daily'', date := Date 2020 3 1,
             tomorrow := Date 2020 3 2, one_week := Date 2020 2 23,
             one_month := Date 2020 1 29, view := False, send := False,
             file := File 0 (if CHR ''~'' \<in> set n then py_replace n CHR ''~'' ''/home/u'' else n),
             recipients := (if truthy rcpts then rcpts else None),
             site := ''example.com'', args := PyNone\<rparr>),
      empty_world\<lparr>fs := (fs empty_world)
         ((if CHR ''~'' \<in> set n then py_replace n CHR ''~'' ''/home/u'' else n) \<mapsto> []),
         files_closed := [False]\<rparr>)"
  unfolding example_init using assms
  by (simp add: get_file_def py_open_w_def new_file_def example_env_simps empty_world_simps
      Let_def)

text \<open>Reading a construction and a run off a computed case distinction.\<close>

lemma case_constructedE:
  assumes "case m of (Inr self, w1) \<Rightarrow> P self w1 | (Inl err, w1) \<Rightarrow> False"
  obtains self w1 where "m = (Inr self, w1)" "P self w1"
  using assms by (auto split: prod.splits sum.splits)

lemma case_resultE:
  assumes "case m of (res, w2) \<Rightarrow> Q res w2"
  obtains res w2 where "m = (res, w2)" "Q res w2"
  using assms by (cases m) auto

text \<open>
  Claim C7.  A report constructed with \<^verbatim>\<open>view=True\<close> writes to standard output, and all its
  run does to the collaborators is one call of \<^verbatim>\<open>get_data\<close>: no call of
  \<^verbatim>\<open>get_default_recipients\<close>, no message built, no \<^verbatim>\<open>send()\<close>, nothing removed; the files on
  disk are as they were before the report was constructed.
\<close>

theorem view_run_effects:
  assumes "init cls e freq dt True filename rcpts report_args w = (Inr self, w1)"
    and "run_report cls e self w1 = (res, w2)"
  shows "file self = Stdout \<and> trace w2 = trace w @ [HookCalled GetData] \<and> fs w2 = fs w"
proof -
  note ir = init_result[OF assms(1)]
  from ir(7) obtain s where s: "view s" "get_file e s filename w = (Inr (file self), w1)"
    by auto
  from s have f: "file self = Stdout" and w1: "w1 = w"
    by (simp_all add: get_file_view)
  from ir(4) have ns: "\<not> send self" by simp
  let ?tail = "\<lambda>rows. io_bind (writerows Stdout rows) (\<lambda>_. io_bind (fclose Stdout) (\<lambda>_. io_return ()))"
  have run: "run_report cls e self =
      io_bind (call_hook GetData (resolve (get_data_def cls) get_data) 0 self) ?tail"
    unfolding run_report_def using f ns by simp
  have quiet: "emits (\<lambda>ev. False) (?tail rows)" "keeps_fs (?tail rows)" for rows :: table
    by (intro emits_bind emits_writerows emits_fclose emits_return)
       (intro keeps_fs_bind keeps_fs_writerows_Stdout keeps_fs_fclose keeps_fs_return)
  from assms(2) have "io_bind (call_hook GetData (resolve (get_data_def cls) get_data) 0 self) ?tail w
      = (res, w2)"
    unfolding run w1 .
  then have "trace w2 = trace w @ [HookCalled GetData] \<and> fs w2 = fs w"
  proof (cases rule: io_bind_cases)
    case (raised err)
    then show ?thesis
      using call_hook_trace keeps_fsD[OF keeps_fs_call_hook] by blast
  next
    case (returned rows wa)
    from call_hook_trace[OF returned(1)] keeps_fsD[OF keeps_fs_call_hook returned(1)]
      emits_nothing[OF quiet(1) returned(2)] keeps_fsD[OF quiet(2) returned(2)]
    show ?thesis by simp
  qed
  with f show ?thesis by simp
qed

theorem view_run_effects_witness:
  "\<exists>self w1 res w2.
     init example_class example_env ''daily'' PyNone True (Some ''out.csv'') None PyNone empty_world
       = (Inr self, w1)
     \<and> run_report example_class example_env self w1 = (res, w2)
     \<and> file self = Stdout \<and> trace w2 = trace empty_world @ [HookCalled GetData]
     \<and> fs w2 = fs empty_world"
proof -
  obtain self w1 where i: "init example_class example_env ''daily'' PyNone True (Some ''out.csv'') None
      PyNone empty_world = (Inr self, w1)"
    by (simp add: example_init get_file_view)
  obtain res w2 where r: "run_report example_class example_env self w1 = (res, w2)"
    by (cases "run_report example_class example_env self w1")
  from view_run_effects[OF i r] i r show ?thesis by blast
qed





section \<open>Writing the CSV file\<close>

lemma world_fs_same:
  assumes "fs w p = Some c"
  shows "w\<lparr>fs := (fs w)(p \<mapsto> c)\<rparr> = w"
proof -
  from assms have "(fs w)(p \<mapsto> c) = fs w" by (rule map_upd_triv)
  then show ?thesis by simp
qed

lemma writerows_File:
  assumes "fs w p = Some c" "is_open w h"
  shows "writerows (File h p) rows w =
           (Inr (), w\<lparr>fs := (fs w)(p \<mapsto> c @ concat (map csv_row rows))\<rparr>)"
  using assms
proof (induction rows arbitrary: w c)
  case Nil
  show ?case
    by (simp only: writerows.simps io_return_def list.map concat.simps append_Nil2
        world_fs_same[OF Nil(1)])
next
  case (Cons row rows)
  let ?w = "w\<lparr>fs := (fs w)(p \<mapsto> c @ csv_row row)\<rparr>"
  have "fs ?w p = Some (c @ csv_row row)" "is_open ?w h"
    using Cons.prems(2) by (simp_all add: is_open_def)
  from Cons.IH[OF this]
  have "writerows (File h p) rows ?w =
      (Inr (), ?w\<lparr>fs := (fs ?w)(p \<mapsto> (c @ csv_row row) @ concat (map csv_row rows))\<rparr>)" .
  moreover have "?w\<lparr>fs := (fs ?w)(p \<mapsto> (c @ csv_row row) @ concat (map csv_row rows))\<rparr> =
      w\<lparr>fs := (fs w)(p \<mapsto> c @ concat (map csv_row (row # rows)))\<rparr>"
    by simp
  moreover have "fwrite (File h p) (csv_row row) w = (Inr (), ?w)"
    using Cons.prems by simp
  ultimately show ?case
    by (simp only: writerows.simps io_bind_def prod.case sum.case)
qed









section \<open>Reading back what the writer wrote\<close>

















section \<open>Sending the results\<close>





section \<open>The plain-text table of the message\<close>

lemma collect_map_Inr:
  assumes "\<And>x. x \<in> set xs \<Longrightarrow> f x = Inr (g x)"
  shows "collect (map f xs) = Inr (map g xs)"
  using assms by (induction xs) simp_all

lemma py_max_Max:
  assumes "xs \<noteq> []"
  shows "py_max xs = Inr (Max (set xs))"
proof (cases xs)
  case Nil
  with assms show ?thesis by simp
next
  case (Cons a list)
  have "Max (set (a # list)) = fold max list a" by (rule Max.set_eq_fold)
  then show ?thesis unfolding Cons by (simp only: py_max.simps)
qed

lemma column_max_lens_rectangular:
  assumes "\<And>row. row \<in> set rows \<Longrightarrow> length row = length header"
  shows "column_max_lens (header # rows) =
           Inr (map (column_width (header # rows)) [0..<length header])"
proof -
  let ?data = "header # rows"
  have col: "(case collect (map (\<lambda>data_line.
                 case py_index data_line i of Inl e \<Rightarrow> Inl e
                 | Inr v \<Rightarrow> Inr (length (py_str v))) ?data)
          of Inl e \<Rightarrow> Inl e | Inr lens \<Rightarrow> py_max lens) = Inr (column_width ?data i)"
    if "i \<in> set [0..<length header]" for i
  proof -
    have "collect (map (\<lambda>data_line.
                 case py_index data_line i of Inl e \<Rightarrow> Inl e
                 | Inr v \<Rightarrow> Inr (length (py_str v))) ?data)
        = Inr (map (\<lambda>row. length (py_str (row ! i))) ?data)"
      using that assms by (intro collect_map_Inr) (auto simp: py_index_def)
    moreover have "py_max (map (\<lambda>row. length (py_str (row ! i))) ?data) =
        Inr (Max (set (map (\<lambda>row. length (py_str (row ! i))) ?data)))"
      by (rule py_max_Max) simp
    moreover have "set (map (\<lambda>row. length (py_str (row ! i))) ?data) =
        (\<lambda>row. length (py_str (row ! i))) ` set ?data"
      by (rule set_map)
    ultimately show ?thesis
      by (simp only: sum.case column_width_def)
  qed
  have hd: "py_index ?data 0 = Inr header" by (simp add: py_index_def)
  show ?thesis
    unfolding column_max_lens_def hd sum.case by (rule collect_map_Inr) (rule col)
qed

lemma row_line_rectangular:
  assumes "length row = length lens"
  shows "row_line lens row = Inr (table_line lens row)"
proof -
  have "collect (map (padded lens row) [0..<length row]) =
      Inr (map (\<lambda>i. padded_cell (lens ! i) (row ! i)) [0..<length row])"
    using assms by (intro collect_map_Inr) (simp add: padded_def py_index_def padded_cell_def)
  moreover have "map (\<lambda>i. padded_cell (lens ! i) (row ! i)) [0..<length row] = map2 padded_cell lens row"
    using assms by (intro nth_equalityI) simp_all
  ultimately show ?thesis by (simp add: row_line_def table_line_def)
qed

text \<open>
  What the plain-text body is for a table all of whose rows have the length of the header:
  a border, the header line, a border, one line per data row, a border; the border has as
  many dashes per column as the column is wide, and every cell is padded to exactly that
  width.
\<close>

lemma text_content_rectangular:
  assumes "\<And>row. row \<in> set rows \<Longrightarrow> length row = length header"
  defines "lens \<equiv> map (column_width (header # rows)) [0..<length header]"
  shows "text_content (header # rows) =
           Inr (border lens @ table_line lens header @ border lens
                @ concat (map (table_line lens) rows) @ border lens)"
proof -
  have l: "length lens = length header" by (simp add: lens_def)
  have c: "column_max_lens (header # rows) = Inr lens"
    unfolding lens_def using assms(1) by (rule column_max_lens_rectangular)
  have h: "row_line lens header = Inr (table_line lens header)"
    using l by (intro row_line_rectangular) simp
  have r: "collect (map (row_line lens) rows) = Inr (map (table_line lens) rows)"
    using l assms(1) by (intro collect_map_Inr row_line_rectangular) simp
  show ?thesis
    unfolding text_content_def by (simp add: c h r py_index_def)
qed

lemma padded_cell_width:
  assumes "row \<in> set data" "i < length row"
  shows "length (padded_cell (column_width data i) (row ! i)) = column_width data i"
proof -
  have "length (py_str (row ! i)) \<in> (\<lambda>row. length (py_str (row ! i))) ` set data"
    using assms(1) by blast
  then have "length (py_str (row ! i)) \<le> column_width data i"
    unfolding column_width_def by (intro Max_ge) simp_all
  then show ?thesis by (simp add: padded_cell_def)
qed

lemma border_example: "border [3, 1] = ''+---+-+'' @ [LF, CR]"
  by (simp add: border_def numeral_3_eq_3)








section \<open>Where the code departs from what is claimed\<close>

subsection \<open>The default recipients\<close>

lemma inherited_default_recipients:
  assumes "get_default_recipients_def cls = None" "\<not> truthy (recipients self)"
  shows "send_results cls e self w =
           (Inl TypeError, w\<lparr>trace := trace w @ [HookCalled GetDefaultRecipients]\<rparr>)"
  using assms
  by (simp add: send_results_def io_bind_def call_hook_def resolve_def get_default_recipients_def
      Let_def)

text \<open>
  Claim C5 fails on the code.  \<^verbatim>\<open>BaseReport.get_default_recipients\<close> is declared with a
  parameter \<^verbatim>\<open>recipients\<close>, and \<^verbatim>\<open>send_results\<close> calls it with no argument: for a subclass
  that does not override it and a report constructed without recipients, the send step
  ends with \<^verbatim>\<open>TypeError\<close> at the call, and the \<^verbatim>\<open>raise NotImplementedError\<close> in the body
  is never reached.
\<close>

theorem default_recipients_type_error:
  "\<exists>self w1 w2.
     get_default_recipients_def bare_class = None
     \<and> init bare_class example_env ''daily'' PyNone False None None PyNone empty_world = (Inr self, w1)
     \<and> recipients self = None \<and> send self
     \<and> run_report bare_class example_env self w1 = (Inl TypeError, w2)
     \<and> trace w2 = [HookCalled GetData, HookCalled GetDefaultRecipients]"
proof -
  have "case init bare_class example_env ''daily'' PyNone False None None PyNone empty_world of
     (Inr self, w1) \<Rightarrow>
       recipients self = None \<and> send self \<and>
       (case run_report bare_class example_env self w1 of
          (res, w2) \<Rightarrow> res = Inl TypeError
            \<and> trace w2 = [HookCalled GetData, HookCalled GetDefaultRecipients])
   | (Inl err, w1) \<Rightarrow> False"
    by code_simp
  then obtain self w1
    where i: "init bare_class example_env ''daily'' PyNone False None None PyNone empty_world
        = (Inr self, w1)"
      and a: "recipients self = None \<and> send self \<and>
       (case run_report bare_class example_env self w1 of
          (res, w2) \<Rightarrow> res = Inl TypeError
            \<and> trace w2 = [HookCalled GetData, HookCalled GetDefaultRecipients])"
    by (rule case_constructedE)
  from a obtain res w2
    where r: "run_report bare_class example_env self w1 = (res, w2)"
      and b: "res = Inl TypeError \<and> trace w2 = [HookCalled GetData, HookCalled GetDefaultRecipients]"
    by (auto elim: case_resultE)
  have "get_default_recipients_def bare_class = None"
    by (simp add: bare_class_def)
  with i a r b show ?thesis by blast
qed

subsection \<open>The plain-text table\<close>

text \<open>
  Claim C4 fails on the code in its last part.  For the table with header a, b and rows
  1, 2 and 300, 4 the text body has the column widths 3 and 1, padded cells, borders of
  \<^verbatim>\<open>+\<close> and \<^verbatim>\<open>-\<close> and \<^verbatim>\<open>|\<close> between the columns, but every line ends with line feed followed
  by carriage return (\<^verbatim>\<open>"\n\r"\<close>), not with carriage return followed by line feed.
\<close>

theorem text_content_line_ends:
  "text_content example_table =
     Inr (''+---+-+'' @ [LF, CR] @ ''|a  |b|'' @ [LF, CR] @ ''+---+-+'' @ [LF, CR]
          @ ''|1  |2|'' @ [LF, CR] @ ''|300|4|'' @ [LF, CR] @ ''+---+-+'' @ [LF, CR])"
  by code_simp

subsection \<open>The home directory in the file name\<close>

text \<open>
  Claim C9 fails on the code for a file name with a \<^verbatim>\<open>~\<close> that is not its first character:
  \<^verbatim>\<open>get_file\<close> replaces every \<^verbatim>\<open>~\<close> of the name by the home directory.  With the home
  directory \<^verbatim>\<open>/home/u\<close>, the report constructed for \<^verbatim>\<open>out~1.csv\<close> writes to
  \<^verbatim>\<open>out/home/u1.csv\<close>, and no file \<^verbatim>\<open>out~1.csv\<close> is made.
\<close>

theorem tilde_replaced_everywhere:
  "\<exists>self w1.
     init example_class example_env ''daily'' PyNone False (Some ''out~1.csv'') None PyNone empty_world
       = (Inr self, w1)
     \<and> file self = File 0 ''out/home/u1.csv''
     \<and> fs w1 ''out/home/u1.csv'' = Some [] \<and> fs w1 ''out~1.csv'' = None"
  by (simp add: example_init_named py_replace_def empty_world_simps)


section \<open>Further facts about the parts that work as described\<close>

lemma inherited_get_data:
  assumes "get_data_def cls = None"
  shows "run_report cls e self w =
           (Inl NotImplementedError, w\<lparr>trace := trace w @ [HookCalled GetData]\<rparr>)"
  using assms
  by (simp add: run_report_def io_bind_def call_hook_def resolve_def get_data_def Let_def)

lemma py_replace_absent: "old \<notin> set s \<Longrightarrow> py_replace s old new = s"
  by (induction s) (auto simp: py_replace_def)

lemma csv_field_plain:
  assumes "\<not> list_ex csv_special s" "s \<noteq> [] \<or> \<not> quote_empty"
  shows "csv_field quote_empty s = s"
proof -
  from assms(1) have "CHR 0x22 \<notin> set s" by (auto simp: list_ex_iff csv_special_def)
  then have "concat (map (\<lambda>c. if c = CHR 0x22 then [CHR 0x22, CHR 0x22] else [c]) s) = s"
    by (rule py_replace_absent[unfolded py_replace_def])
  with assms show ?thesis by (auto simp: csv_field_def Let_def)
qed

lemma named_target_plain:
  assumes "\<not> view self" "n \<noteq> []" "CHR ''~'' \<notin> set n"
  shows "get_file e self (Some n) = py_open_w e n"
  using assms by (simp add: get_file_def)

lemma named_target_home:
  assumes "\<not> view self" "CHR ''~'' \<notin> set rest"
  shows "get_file e self (Some (CHR ''~'' # rest)) = py_open_w e (home e @ rest)"
proof -
  have "py_replace (CHR ''~'' # rest) CHR ''~'' (home e) = home e @ py_replace rest CHR ''~'' (home e)"
    by (simp add: py_replace_def)
  with assms show ?thesis by (simp add: get_file_def Let_def py_replace_absent)
qed

text \<open>A report constructed with a file name (and without the view flag) sends nothing and
  removes nothing: after its run the file it opened is on disk.\<close>

lemma named_file_kept:
  assumes "init cls e freq dt False (Some n) rcpts report_args w = (Inr self, w1)" "n \<noteq> []"
    and "run_report cls e self w1 = (res, w2)"
  shows "\<exists>h p. file self = File h p \<and> fs w2 p \<noteq> None \<and> trace w2 = trace w @ [HookCalled GetData]"
proof -
  note ir = init_result[OF assms(1)]
  from ir(4) assms(2) have ns: "\<not> send self" by simp
  from ir(7) obtain s where s: "\<not> view s" "get_file e s (Some n) w = (Inr (file self), w1)"
    by auto
  define p where "p = (if CHR ''~'' \<in> set n then py_replace n CHR ''~'' (home e) else n)"
  from s assms(2) have "py_open_w e p w = (Inr (file self), w1)"
    by (simp add: get_file_named p_def)
  then have f: "file self = File (length (files_closed w)) p" and f1: "fs w1 p = Some []"
    and t1: "trace w1 = trace w" and o1: "is_open w1 (length (files_closed w))"
    by (auto simp: py_open_w_def new_file_def is_open_def split: if_splits)
  define h where "h = length (files_closed w)"
  note f = f[folded h_def] and o1 = o1[folded h_def]
  let ?hook = "call_hook GetData (resolve (get_data_def cls) get_data) 0 self"
  let ?tail = "\<lambda>rows. io_bind (writerows (File h p) rows) (\<lambda>_. io_bind (fclose (File h p))
      (\<lambda>_. io_return ()))"
  have "run_report cls e self = io_bind ?hook ?tail"
    unfolding run_report_def using f ns by simp
  with assms(3) have "io_bind ?hook ?tail w1 = (res, w2)" by simp
  then have "fs w2 p \<noteq> None \<and> trace w2 = trace w @ [HookCalled GetData]"
  proof (cases rule: io_bind_cases)
    case (raised err)
    from call_hook_trace[OF raised(1)] keeps_fsD[OF keeps_fs_call_hook raised(1)] t1 f1
    show ?thesis by simp
  next
    case (returned rows wa)
    from call_hook_trace[OF returned(1)] keeps_fsD[OF keeps_fs_call_hook returned(1)] t1 f1
    have ta: "trace wa = trace w @ [HookCalled GetData]" and fa: "fs wa p = Some []" by simp_all
    from call_hook_files_closed[OF returned(1)] o1 have oa: "is_open wa h"
      by (simp add: is_open_def)
    from returned(2) have "w2 = wa\<lparr>fs := (fs wa)(p \<mapsto> [] @ concat (map csv_row rows)),
        files_closed := (files_closed wa)[h := True]\<rparr>"
      by (simp add: io_bind_def writerows_File[OF fa oa] io_return_def)
    with ta show ?thesis by simp
  qed
  with f show ?thesis by blast
qed


end
